theory Spec2Isabelle
  imports Complex_Main
begin

section \<open>Python values\<close>

text \<open>
  The plant device of \<^verbatim>\<open>custom_components/plant/plant.py\<close> reads sensor states, threshold
  states and configuration options, all of them dynamically typed Python values, and
  converts them with the builtin \<^verbatim>\<open>float\<close>. A Python float is modelled by its
  mathematical value: a finite double is a rational number, and the three special values
  are kept apart because every ordered comparison with \<^verbatim>\<open>nan\<close> is false.
\<close>

datatype pyfloat = NaN | NegInf | Finite rat | PosInf

fun float_lt :: "pyfloat \<Rightarrow> pyfloat \<Rightarrow> bool" where
  "float_lt NaN _ = False"
| "float_lt _ NaN = False"
| "float_lt _ NegInf = False"
| "float_lt NegInf _ = True"
| "float_lt PosInf _ = False"
| "float_lt (Finite a) (Finite b) = (a < b)"
| "float_lt (Finite a) PosInf = True"

definition float_gt :: "pyfloat \<Rightarrow> pyfloat \<Rightarrow> bool" where
  "float_gt a b = float_lt b a"

fun float_le :: "pyfloat \<Rightarrow> pyfloat \<Rightarrow> bool" where
  "float_le NaN _ = False"
| "float_le _ NaN = False"
| "float_le a b = (a = b \<or> float_lt a b)"

datatype pyval = PNone | PBool bool | PStr string | PNum pyfloat

datatype error = ValueError | TypeError | KeyError | AttributeError

text \<open>Truth value testing, as \<^verbatim>\<open>if x:\<close> and \<^verbatim>\<open>x or y\<close> do it.\<close>

fun py_truthy :: "pyval \<Rightarrow> bool" where
  "py_truthy PNone = False"
| "py_truthy (PBool b) = b"
| "py_truthy (PStr s) = (s \<noteq> [])"
| "py_truthy (PNum x) = (x \<noteq> Finite 0)"

definition py_or :: "pyval \<Rightarrow> pyval \<Rightarrow> pyval" where
  "py_or a b = (if py_truthy a then a else b)"

text \<open>\<^verbatim>\<open>d.get(key, default)\<close> and \<^verbatim>\<open>d[key]\<close> on a dict.\<close>

definition dict_get :: "('k \<rightharpoonup> 'v) \<Rightarrow> 'k \<Rightarrow> 'v \<Rightarrow> 'v" where
  "dict_get d k dflt = (case d k of None \<Rightarrow> dflt | Some v \<Rightarrow> v)"

definition dict_item :: "('k \<rightharpoonup> 'v) \<Rightarrow> 'k \<Rightarrow> error + 'v" where
  "dict_item d k = (case d k of None \<Rightarrow> Inl KeyError | Some v \<Rightarrow> Inr v)"

text \<open>
  The builtin \<^verbatim>\<open>float\<close>. Its action on strings (the grammar of float literals and the
  rounding to a double) belongs to the Python runtime, so it is a parameter
  \<open>str_float\<close>, with \<open>None\<close> where Python raises \<^verbatim>\<open>ValueError\<close>.
\<close>

definition float_str :: "(string \<Rightarrow> pyfloat option) \<Rightarrow> string \<Rightarrow> error + pyfloat" where
  "float_str str_float s = (case str_float s of None \<Rightarrow> Inl ValueError | Some x \<Rightarrow> Inr x)"

fun py_float :: "(string \<Rightarrow> pyfloat option) \<Rightarrow> pyval \<Rightarrow> error + pyfloat" where
  "py_float str_float PNone = Inl TypeError"
| "py_float str_float (PBool b) = Inr (Finite (if b then 1 else 0))"
| "py_float str_float (PStr s) = float_str str_float s"
| "py_float str_float (PNum x) = Inr x"

definition bind_err :: "error + 'a \<Rightarrow> ('a \<Rightarrow> error + 'b) \<Rightarrow> error + 'b" where
  "bind_err r f = (case r of Inl e \<Rightarrow> Inl e | Inr v \<Rightarrow> f v)"

text \<open>
  An instance of \<open>str_float\<close> for the examples: Python's \<^verbatim>\<open>float\<close> restricted to
  optionally signed decimal integer literals (\<^verbatim>\<open>float("15") == 15.0\<close>); every other
  string is rejected, as \<^verbatim>\<open>float("abc")\<close> is.
\<close>

fun digits_nat :: "nat \<Rightarrow> string \<Rightarrow> nat option" where
  "digits_nat acc [] = Some acc"
| "digits_nat acc (c # cs) =
     (let d = (of_char c :: nat) in
      if 48 \<le> d \<and> d \<le> 57 then digits_nat (10 * acc + (d - 48)) cs else None)"

fun int_literal_float :: "string \<Rightarrow> pyfloat option" where
  "int_literal_float [] = None"
| "int_literal_float (c # cs) =
     (if c = CHR ''-'' then
        (if cs = [] then None else map_option (\<lambda>n. Finite (- of_nat n)) (digits_nat 0 cs))
      else if c = CHR ''+'' then
        (if cs = [] then None else map_option (\<lambda>n. Finite (of_nat n)) (digits_nat 0 cs))
      else map_option (\<lambda>n. Finite (of_nat n)) (digits_nat 0 (c # cs)))"

section \<open>Constants\<close>

text \<open>The state names of \<^verbatim>\<open>homeassistant.const\<close>.\<close>

definition STATE_OK :: string where "STATE_OK = ''ok''"
definition STATE_PROBLEM :: string where "STATE_PROBLEM = ''problem''"
definition STATE_UNKNOWN :: string where "STATE_UNKNOWN = ''unknown''"
definition STATE_UNAVAILABLE :: string where "STATE_UNAVAILABLE = ''unavailable''"
definition ATTR_ENTITY_PICTURE :: string where "ATTR_ENTITY_PICTURE = ''entity_picture''"
definition ATTR_ICON :: string where "ATTR_ICON = ''icon''"
definition ATTR_NAME :: string where "ATTR_NAME = ''name''"
definition ATTR_UNIT_OF_MEASUREMENT :: string where
  "ATTR_UNIT_OF_MEASUREMENT = ''unit_of_measurement''"

text \<open>
  Modelled from the spec: the module \<^verbatim>\<open>const.py\<close> of the component, which defines the
  constants below, is not among the sources. The two breach states are the spec's
  \<open>low\<close> and \<open>high\<close>, the metric names are the spec's six metrics, and the option keys are
  named after the properties of the device that read them.
\<close>

definition STATE_LOW :: string where "STATE_LOW = ''low''"
definition STATE_HIGH :: string where "STATE_HIGH = ''high''"
definition ATTR_MOISTURE :: string where "ATTR_MOISTURE = ''moisture''"
definition ATTR_TEMPERATURE :: string where "ATTR_TEMPERATURE = ''temperature''"
definition ATTR_CONDUCTIVITY :: string where "ATTR_CONDUCTIVITY = ''conductivity''"
definition ATTR_ILLUMINANCE :: string where "ATTR_ILLUMINANCE = ''illuminance''"
definition ATTR_HUMIDITY :: string where "ATTR_HUMIDITY = ''humidity''"
definition ATTR_DLI :: string where "ATTR_DLI = ''dli''"
definition ATTR_SPECIES :: string where "ATTR_SPECIES = ''species''"
definition ATTR_MAX :: string where "ATTR_MAX = ''max''"
definition ATTR_MIN :: string where "ATTR_MIN = ''min''"
definition ATTR_CURRENT :: string where "ATTR_CURRENT = ''current''"
definition ATTR_SENSOR :: string where "ATTR_SENSOR = ''sensor''"
definition OPB_DISPLAY_PID :: string where "OPB_DISPLAY_PID = ''display_pid''"
definition FLOW_MOISTURE_TRIGGER :: string where "FLOW_MOISTURE_TRIGGER = ''moisture_trigger''"
definition FLOW_CONDUCTIVITY_TRIGGER :: string where
  "FLOW_CONDUCTIVITY_TRIGGER = ''conductivity_trigger''"
definition FLOW_TEMPERATURE_TRIGGER :: string where
  "FLOW_TEMPERATURE_TRIGGER = ''temperature_trigger''"
definition FLOW_HUMIDITY_TRIGGER :: string where "FLOW_HUMIDITY_TRIGGER = ''humidity_trigger''"
definition FLOW_ILLUMINANCE_TRIGGER :: string where
  "FLOW_ILLUMINANCE_TRIGGER = ''illuminance_trigger''"
definition FLOW_DLI_TRIGGER :: string where "FLOW_DLI_TRIGGER = ''dli_trigger''"

section \<open>The data model\<close>

text \<open>
  The entities a plant device holds references to (threshold numbers, meter sensors, the
  DLI sensor) are host objects; the device reads these attributes of them. A reference
  that is \<^verbatim>\<open>None\<close> is \<open>None\<close> here, and reading an attribute through it raises
  \<^verbatim>\<open>AttributeError\<close>.
\<close>

record entity =
  entity_id :: string
  state :: pyval
  native_value :: pyval
  icon :: pyval
  unit_of_measurement :: pyval
  extra_state_attributes :: "string \<rightharpoonup> pyval"

definition attr :: "(entity \<Rightarrow> 'a) \<Rightarrow> entity option \<Rightarrow> error + 'a" where
  "attr field ent = (case ent of None \<Rightarrow> Inl AttributeError | Some x \<Rightarrow> Inr (field x))"

text \<open>
  The config entry: its identifier, \<^verbatim>\<open>config.data[FLOW_PLANT_INFO]\<close> (\<open>None\<close> when the key
  is missing) and its options.
\<close>

record config_entry =
  entry_id :: string
  plant_info :: "(string \<rightharpoonup> pyval) option"
  options :: "string \<rightharpoonup> pyval"

text \<open>
  The fields of \<^verbatim>\<open>PlantDevice\<close>. Python's leading underscore is dropped from
  \<^verbatim>\<open>_config\<close>, \<^verbatim>\<open>_attr_name\<close>, \<^verbatim>\<open>_attr_entity_picture\<close>, \<^verbatim>\<open>_attr_unique_id\<close>,
  \<^verbatim>\<open>_attr_state\<close>, \<^verbatim>\<open>_device_id\<close> and \<^verbatim>\<open>_check_days\<close>. The aggregate state
  \<open>attr_state\<close> starts as the host entity's default, \<open>STATE_UNKNOWN\<close>.
\<close>

record plant =
  config :: config_entry
  attr_name :: pyval
  attr_entity_picture :: pyval
  species :: pyval
  display_species :: pyval
  attr_unique_id :: string
  plant_complete :: bool
  device_id :: "string option"
  check_days :: pyval
  max_moisture :: "entity option"
  min_moisture :: "entity option"
  max_temperature :: "entity option"
  min_temperature :: "entity option"
  max_conductivity :: "entity option"
  min_conductivity :: "entity option"
  max_illuminance :: "entity option"
  min_illuminance :: "entity option"
  max_humidity :: "entity option"
  min_humidity :: "entity option"
  max_dli :: "entity option"
  min_dli :: "entity option"
  sensor_moisture :: "entity option"
  sensor_temperature :: "entity option"
  sensor_conductivity :: "entity option"
  sensor_illuminance :: "entity option"
  sensor_humidity :: "entity option"
  dli :: "entity option"
  micro_dli :: "entity option"
  ppfd :: "entity option"
  total_integral :: "entity option"
  conductivity_status :: "string option"
  illuminance_status :: "string option"
  moisture_status :: "string option"
  temperature_status :: "string option"
  humidity_status :: "string option"
  dli_status :: "string option"
  attr_state :: string

text \<open>
  What the device reads from the host while it runs: the state machine
  (\<^verbatim>\<open>hass.states.get(entity_id)\<close>, \<open>None\<close> when the entity has no state object, else
  the state string), the identifier the device registry gives the device, and \<^verbatim>\<open>float\<close>
  on strings.
\<close>

record hass =
  states :: "string \<rightharpoonup> string"
  registry_device_id :: string
  str_float :: "string \<Rightarrow> pyfloat option"

section \<open>The operations of the device\<close>

subsection \<open>Construction and configuration\<close>

text \<open>
  \<^verbatim>\<open>PlantDevice.__init__\<close>. The name is read with \<^verbatim>\<open>config.data[FLOW_PLANT_INFO][ATTR_NAME]\<close>,
  which raises \<^verbatim>\<open>KeyError\<close> on a missing key; the other values are read with \<^verbatim>\<open>get\<close>.
  The generated \<^verbatim>\<open>entity_id\<close> and the handle \<^verbatim>\<open>_hass\<close> are left to the host.
\<close>

definition PlantDevice_init :: "config_entry \<Rightarrow> error + plant" where
  "PlantDevice_init cfg =
     (case plant_info cfg of
        None \<Rightarrow> Inl KeyError
      | Some info \<Rightarrow>
          (case info ATTR_NAME of
             None \<Rightarrow> Inl KeyError
           | Some name \<Rightarrow>
               (let sp = dict_get (options cfg) ATTR_SPECIES (dict_get info ATTR_SPECIES PNone)
                in Inr \<lparr>
                  config = cfg,
                  attr_name = name,
                  attr_entity_picture =
                    dict_get (options cfg) ATTR_ENTITY_PICTURE
                      (dict_get info ATTR_ENTITY_PICTURE PNone),
                  species = sp,
                  display_species =
                    py_or (dict_get (options cfg) OPB_DISPLAY_PID
                             (dict_get info OPB_DISPLAY_PID PNone)) sp,
                  attr_unique_id = entry_id cfg,
                  plant_complete = False,
                  device_id = None,
                  check_days = PNone,
                  max_moisture = None, min_moisture = None,
                  max_temperature = None, min_temperature = None,
                  max_conductivity = None, min_conductivity = None,
                  max_illuminance = None, min_illuminance = None,
                  max_humidity = None, min_humidity = None,
                  max_dli = None, min_dli = None,
                  sensor_moisture = None, sensor_temperature = None,
                  sensor_conductivity = None, sensor_illuminance = None,
                  sensor_humidity = None,
                  dli = None, micro_dli = None, ppfd = None, total_integral = None,
                  conductivity_status = None, illuminance_status = None,
                  moisture_status = None, temperature_status = None,
                  humidity_status = None, dli_status = None,
                  attr_state = STATE_UNKNOWN \<rparr>)))"

text \<open>The trigger properties: \<^verbatim>\<open>self._config.options.get(FLOW_..._TRIGGER, True)\<close>.\<close>

definition illuminance_trigger :: "plant \<Rightarrow> pyval" where
  "illuminance_trigger p = dict_get (options (config p)) FLOW_ILLUMINANCE_TRIGGER (PBool True)"

definition humidity_trigger :: "plant \<Rightarrow> pyval" where
  "humidity_trigger p = dict_get (options (config p)) FLOW_HUMIDITY_TRIGGER (PBool True)"

definition temperature_trigger :: "plant \<Rightarrow> pyval" where
  "temperature_trigger p = dict_get (options (config p)) FLOW_TEMPERATURE_TRIGGER (PBool True)"

definition dli_trigger :: "plant \<Rightarrow> pyval" where
  "dli_trigger p = dict_get (options (config p)) FLOW_DLI_TRIGGER (PBool True)"

definition moisture_trigger :: "plant \<Rightarrow> pyval" where
  "moisture_trigger p = dict_get (options (config p)) FLOW_MOISTURE_TRIGGER (PBool True)"

definition conductivity_trigger :: "plant \<Rightarrow> pyval" where
  "conductivity_trigger p = dict_get (options (config p)) FLOW_CONDUCTIVITY_TRIGGER (PBool True)"

definition add_image :: "pyval \<Rightarrow> plant \<Rightarrow> plant" where
  "add_image image_url p =
     p\<lparr>attr_entity_picture := image_url,
       config := (config p)\<lparr>options := (options (config p))(ATTR_ENTITY_PICTURE \<mapsto> image_url)\<rparr>\<rparr>"

definition add_species :: "pyval \<Rightarrow> plant \<Rightarrow> plant" where
  "add_species sp p = p\<lparr>species := sp\<rparr>"

text \<open>The twelve threshold entities, in the order of the parameters of \<^verbatim>\<open>add_thresholds\<close>.\<close>

record thresholds =
  t_max_moisture :: "entity option"
  t_min_moisture :: "entity option"
  t_max_temperature :: "entity option"
  t_min_temperature :: "entity option"
  t_max_conductivity :: "entity option"
  t_min_conductivity :: "entity option"
  t_max_illuminance :: "entity option"
  t_min_illuminance :: "entity option"
  t_max_humidity :: "entity option"
  t_min_humidity :: "entity option"
  t_max_dli :: "entity option"
  t_min_dli :: "entity option"

definition add_thresholds :: "thresholds \<Rightarrow> plant \<Rightarrow> plant" where
  "add_thresholds t p =
     p\<lparr>max_moisture := t_max_moisture t, min_moisture := t_min_moisture t,
       max_temperature := t_max_temperature t, min_temperature := t_min_temperature t,
       max_conductivity := t_max_conductivity t, min_conductivity := t_min_conductivity t,
       max_illuminance := t_max_illuminance t, min_illuminance := t_min_illuminance t,
       max_humidity := t_max_humidity t, min_humidity := t_min_humidity t,
       max_dli := t_max_dli t, min_dli := t_min_dli t\<rparr>"

definition add_sensors ::
  "entity option \<Rightarrow> entity option \<Rightarrow> entity option \<Rightarrow> entity option \<Rightarrow> entity option
     \<Rightarrow> plant \<Rightarrow> plant" where
  "add_sensors moisture temperature conductivity illuminance humidity p =
     p\<lparr>sensor_moisture := moisture, sensor_temperature := temperature,
       sensor_conductivity := conductivity, sensor_illuminance := illuminance,
       sensor_humidity := humidity\<rparr>"

definition add_dli :: "entity option \<Rightarrow> plant \<Rightarrow> plant" where
  "add_dli d p = p\<lparr>dli := d, plant_complete := True\<rparr>"

definition add_calculations :: "entity option \<Rightarrow> entity option \<Rightarrow> plant \<Rightarrow> plant" where
  "add_calculations pp ti p = p\<lparr>ppfd := pp, total_integral := ti\<rparr>"

text \<open>
  \<^verbatim>\<open>update_registry\<close>: the registry itself is the host's; the device keeps the identifier
  it is given the first time.
\<close>

definition update_registry :: "hass \<Rightarrow> plant \<Rightarrow> plant" where
  "update_registry h p =
     (if device_id p = None then p\<lparr>device_id := Some (registry_device_id h)\<rparr> else p)"

subsection \<open>The evaluation pass\<close>

text \<open>
  The local variables of \<^verbatim>\<open>update\<close> together with the object it mutates. An exception
  discards the locals and leaves the object as it is at that moment.
\<close>

record frame =
  self :: plant
  new_state :: string
  known_state :: bool

text \<open>\<^verbatim>\<open>float(ent.state)\<close> for a threshold reference \<open>ent\<close>.\<close>

definition float_state :: "hass \<Rightarrow> entity option \<Rightarrow> error + pyfloat" where
  "float_state h ent = bind_err (attr state ent) (py_float (str_float h))"

text \<open>\<^verbatim>\<open>getattr(self._hass.states.get(sensor.entity_id), "state", None)\<close>.\<close>

definition sensor_state :: "hass \<Rightarrow> entity \<Rightarrow> string option" where
  "sensor_state h sensor = states h (entity_id sensor)"

text \<open>
  The six blocks of \<^verbatim>\<open>update\<close>, in the order of the source. Where the source converts the
  same reading again in the \<^verbatim>\<open>elif\<close>, the value of the first conversion is reused;
  the assignment \<^verbatim>\<open>known_state = True\<close> precedes the conversions in the source, and is
  lost with the other locals when one of them raises.
\<close>

definition moisture_block :: "hass \<Rightarrow> frame \<Rightarrow> error + frame" where
  "moisture_block h f =
     (case sensor_moisture (self f) of
        None \<Rightarrow> Inr f
      | Some sensor \<Rightarrow>
          (case sensor_state h sensor of
             None \<Rightarrow> Inr f
           | Some moisture \<Rightarrow>
               if moisture \<noteq> STATE_UNKNOWN \<and> moisture \<noteq> STATE_UNAVAILABLE then
                 bind_err (float_str (str_float h) moisture) (\<lambda>v.
                 bind_err (float_state h (min_moisture (self f))) (\<lambda>mn.
                   if float_lt v mn then
                     Inr (f\<lparr>self := (self f)\<lparr>moisture_status := Some STATE_LOW\<rparr>,
                            known_state := True,
                            new_state := (if py_truthy (moisture_trigger (self f))
                                          then STATE_PROBLEM else new_state f)\<rparr>)
                   else
                     bind_err (float_state h (max_moisture (self f))) (\<lambda>mx.
                       if float_gt v mx then
                         Inr (f\<lparr>self := (self f)\<lparr>moisture_status := Some STATE_HIGH\<rparr>,
                                known_state := True,
                                new_state := (if py_truthy (moisture_trigger (self f))
                                              then STATE_PROBLEM else new_state f)\<rparr>)
                       else
                         Inr (f\<lparr>self := (self f)\<lparr>moisture_status := Some STATE_OK\<rparr>,
                                known_state := True\<rparr>))))
               else Inr f))"

definition conductivity_block :: "hass \<Rightarrow> frame \<Rightarrow> error + frame" where
  "conductivity_block h f =
     (case sensor_conductivity (self f) of
        None \<Rightarrow> Inr f
      | Some sensor \<Rightarrow>
          (case sensor_state h sensor of
             None \<Rightarrow> Inr f
           | Some conductivity \<Rightarrow>
               if conductivity \<noteq> STATE_UNKNOWN \<and> conductivity \<noteq> STATE_UNAVAILABLE then
                 bind_err (float_str (str_float h) conductivity) (\<lambda>v.
                 bind_err (float_state h (min_conductivity (self f))) (\<lambda>mn.
                   if float_lt v mn then
                     Inr (f\<lparr>self := (self f)\<lparr>conductivity_status := Some STATE_LOW\<rparr>,
                            known_state := True,
                            new_state := (if py_truthy (conductivity_trigger (self f))
                                          then STATE_PROBLEM else new_state f)\<rparr>)
                   else
                     bind_err (float_state h (max_conductivity (self f))) (\<lambda>mx.
                       if float_gt v mx then
                         Inr (f\<lparr>self := (self f)\<lparr>conductivity_status := Some STATE_HIGH\<rparr>,
                                known_state := True,
                                new_state := (if py_truthy (conductivity_trigger (self f))
                                              then STATE_PROBLEM else new_state f)\<rparr>)
                       else
                         Inr (f\<lparr>self := (self f)\<lparr>conductivity_status := Some STATE_OK\<rparr>,
                                known_state := True\<rparr>))))
               else Inr f))"

definition temperature_block :: "hass \<Rightarrow> frame \<Rightarrow> error + frame" where
  "temperature_block h f =
     (case sensor_temperature (self f) of
        None \<Rightarrow> Inr f
      | Some sensor \<Rightarrow>
          (case sensor_state h sensor of
             None \<Rightarrow> Inr f
           | Some temperature \<Rightarrow>
               if temperature \<noteq> STATE_UNKNOWN \<and> temperature \<noteq> STATE_UNAVAILABLE then
                 bind_err (float_str (str_float h) temperature) (\<lambda>v.
                 bind_err (float_state h (min_temperature (self f))) (\<lambda>mn.
                   if float_lt v mn then
                     Inr (f\<lparr>self := (self f)\<lparr>temperature_status := Some STATE_LOW\<rparr>,
                            known_state := True,
                            new_state := (if py_truthy (temperature_trigger (self f))
                                          then STATE_PROBLEM else new_state f)\<rparr>)
                   else
                     bind_err (float_state h (max_temperature (self f))) (\<lambda>mx.
                       if float_gt v mx then
                         Inr (f\<lparr>self := (self f)\<lparr>temperature_status := Some STATE_HIGH\<rparr>,
                                known_state := True,
                                new_state := (if py_truthy (temperature_trigger (self f))
                                              then STATE_PROBLEM else new_state f)\<rparr>)
                       else
                         Inr (f\<lparr>self := (self f)\<lparr>temperature_status := Some STATE_OK\<rparr>,
                                known_state := True\<rparr>))))
               else Inr f))"

definition humidity_block :: "hass \<Rightarrow> frame \<Rightarrow> error + frame" where
  "humidity_block h f =
     (case sensor_humidity (self f) of
        None \<Rightarrow> Inr f
      | Some sensor \<Rightarrow>
          (case sensor_state h sensor of
             None \<Rightarrow> Inr f
           | Some humidity \<Rightarrow>
               if humidity \<noteq> STATE_UNKNOWN \<and> humidity \<noteq> STATE_UNAVAILABLE then
                 bind_err (float_str (str_float h) humidity) (\<lambda>v.
                 bind_err (float_state h (min_humidity (self f))) (\<lambda>mn.
                   if float_lt v mn then
                     Inr (f\<lparr>self := (self f)\<lparr>humidity_status := Some STATE_LOW\<rparr>,
                            known_state := True,
                            new_state := (if py_truthy (humidity_trigger (self f))
                                          then STATE_PROBLEM else new_state f)\<rparr>)
                   else
                     bind_err (float_state h (max_humidity (self f))) (\<lambda>mx.
                       if float_gt v mx then
                         Inr (f\<lparr>self := (self f)\<lparr>humidity_status := Some STATE_HIGH\<rparr>,
                                known_state := True,
                                new_state := (if py_truthy (humidity_trigger (self f))
                                              then STATE_PROBLEM else new_state f)\<rparr>)
                       else
                         Inr (f\<lparr>self := (self f)\<lparr>humidity_status := Some STATE_OK\<rparr>,
                                known_state := True\<rparr>))))
               else Inr f))"

text \<open>Illuminance is checked against its maximum only.\<close>

definition illuminance_block :: "hass \<Rightarrow> frame \<Rightarrow> error + frame" where
  "illuminance_block h f =
     (case sensor_illuminance (self f) of
        None \<Rightarrow> Inr f
      | Some sensor \<Rightarrow>
          (case sensor_state h sensor of
             None \<Rightarrow> Inr f
           | Some illuminance \<Rightarrow>
               if illuminance \<noteq> STATE_UNKNOWN \<and> illuminance \<noteq> STATE_UNAVAILABLE then
                 bind_err (float_str (str_float h) illuminance) (\<lambda>v.
                 bind_err (float_state h (max_illuminance (self f))) (\<lambda>mx.
                   if float_gt v mx then
                     Inr (f\<lparr>self := (self f)\<lparr>illuminance_status := Some STATE_HIGH\<rparr>,
                            known_state := True,
                            new_state := (if py_truthy (illuminance_trigger (self f))
                                          then STATE_PROBLEM else new_state f)\<rparr>)
                   else
                     Inr (f\<lparr>self := (self f)\<lparr>illuminance_status := Some STATE_OK\<rparr>,
                            known_state := True\<rparr>)))
               else Inr f))"

text \<open>
  The DLI of the previous day, \<^verbatim>\<open>float(self.dli.extra_state_attributes["last_period"])\<close>,
  against both thresholds. The conjunctions short-circuit: a threshold is read only
  when the accumulated value is positive.
\<close>

definition last_period :: "hass \<Rightarrow> entity \<Rightarrow> error + pyfloat" where
  "last_period h d =
     bind_err (dict_item (extra_state_attributes d) ''last_period'') (py_float (str_float h))"

definition dli_known :: "entity \<Rightarrow> bool" where
  "dli_known d \<longleftrightarrow>
     native_value d \<noteq> PStr STATE_UNKNOWN \<and> native_value d \<noteq> PStr STATE_UNAVAILABLE
     \<and> state d \<noteq> PNone"

definition dli_block :: "hass \<Rightarrow> frame \<Rightarrow> error + frame" where
  "dli_block h f =
     (case dli (self f) of
        None \<Rightarrow> Inr f
      | Some d \<Rightarrow>
          if dli_known d then
            bind_err (last_period h d) (\<lambda>lp.
            bind_err (if float_gt lp (Finite 0)
                      then bind_err (float_state h (min_dli (self f)))
                             (\<lambda>mn. Inr (float_lt lp mn))
                      else Inr False) (\<lambda>low.
              if low then
                Inr (f\<lparr>self := (self f)\<lparr>dli_status := Some STATE_LOW\<rparr>,
                       known_state := True,
                       new_state := (if py_truthy (dli_trigger (self f))
                                     then STATE_PROBLEM else new_state f)\<rparr>)
              else
                bind_err (if float_gt lp (Finite 0)
                          then bind_err (float_state h (max_dli (self f)))
                                 (\<lambda>mx. Inr (float_gt lp mx))
                          else Inr False) (\<lambda>high.
                  if high then
                    Inr (f\<lparr>self := (self f)\<lparr>dli_status := Some STATE_HIGH\<rparr>,
                           known_state := True,
                           new_state := (if py_truthy (dli_trigger (self f))
                                         then STATE_PROBLEM else new_state f)\<rparr>)
                  else
                    Inr (f\<lparr>self := (self f)\<lparr>dli_status := Some STATE_OK\<rparr>,
                           known_state := True\<rparr>))))
          else Inr f)"

text \<open>
  Sequencing: a block that raises ends the pass, and the caller then sees the exception
  and the object as the blocks before it left it.
\<close>

definition then_block ::
  "(error \<times> plant) + frame \<Rightarrow> (frame \<Rightarrow> error + frame) \<Rightarrow> (error \<times> plant) + frame" where
  "then_block r b =
     (case r of
        Inl x \<Rightarrow> Inl x
      | Inr f \<Rightarrow> (case b f of Inl e \<Rightarrow> Inl (e, self f) | Inr f' \<Rightarrow> Inr f'))"

definition run_blocks :: "hass \<Rightarrow> plant \<Rightarrow> (error \<times> plant) + frame" where
  "run_blocks h p =
     then_block (then_block (then_block (then_block (then_block (then_block
       (Inr \<lparr>self = p, new_state = STATE_OK, known_state = False\<rparr>)
       (moisture_block h)) (conductivity_block h)) (temperature_block h))
       (humidity_block h)) (illuminance_block h)) (dli_block h)"

text \<open>
  \<^verbatim>\<open>PlantDevice.update\<close>: \<open>Inr\<close> is the device after a pass that returned, \<open>Inl\<close> the
  exception together with the device as the failed pass left it.
\<close>

definition update :: "hass \<Rightarrow> plant \<Rightarrow> (error \<times> plant) + plant" where
  "update h p =
     (case run_blocks h p of
        Inl x \<Rightarrow> Inl x
      | Inr f \<Rightarrow>
          Inr (update_registry h
                 ((self f)\<lparr>attr_state :=
                     (if \<not> known_state f then STATE_UNKNOWN else new_state f)\<rparr>)))"

definition plant_after :: "(error \<times> plant) + plant \<Rightarrow> plant" where
  "plant_after r = (case r of Inl (e, p) \<Rightarrow> p | Inr p \<Rightarrow> p)"

subsection \<open>The read-only surfaces\<close>

text \<open>
  \<^verbatim>\<open>PlantDevice.extra_state_attributes\<close>, a dict rendered as the list of its items in
  insertion order.
\<close>

definition status_val :: "string option \<Rightarrow> pyval" where
  "status_val s = (case s of None \<Rightarrow> PNone | Some x \<Rightarrow> PStr x)"

definition plant_extra_state_attributes :: "plant \<Rightarrow> (string \<times> pyval) list" where
  "plant_extra_state_attributes p =
     (if \<not> plant_complete p then []
      else [(ATTR_SPECIES, display_species p),
            (ATTR_MOISTURE @ ''_status'', status_val (moisture_status p)),
            (ATTR_TEMPERATURE @ ''_status'', status_val (temperature_status p)),
            (ATTR_CONDUCTIVITY @ ''_status'', status_val (conductivity_status p)),
            (ATTR_ILLUMINANCE @ ''_status'', status_val (illuminance_status p)),
            (ATTR_HUMIDITY @ ''_status'', status_val (humidity_status p)),
            (ATTR_DLI @ ''_status'', status_val (dli_status p)),
            (ATTR_SPECIES @ ''_original'', species p)])"

text \<open>One inner dict of \<^verbatim>\<open>websocket_info\<close> for a metric with a meter sensor.\<close>

definition meter_info ::
  "entity option \<Rightarrow> entity option \<Rightarrow> entity option \<Rightarrow> error + (string \<times> pyval) list" where
  "meter_info mx mn sensor =
     bind_err (attr state mx) (\<lambda>vmax.
     bind_err (attr state mn) (\<lambda>vmin.
     bind_err (attr state sensor) (\<lambda>cur.
     bind_err (attr icon sensor) (\<lambda>ic.
     bind_err (attr unit_of_measurement sensor) (\<lambda>unit.
     bind_err (attr entity_id sensor) (\<lambda>eid.
       Inr [(ATTR_MAX, vmax), (ATTR_MIN, vmin),
            (ATTR_CURRENT, py_or cur (PStr STATE_UNAVAILABLE)),
            (ATTR_ICON, ic), (ATTR_UNIT_OF_MEASUREMENT, unit),
            (ATTR_SENSOR, PStr eid)]))))))"

definition dli_info :: "hass \<Rightarrow> plant \<Rightarrow> error + (string \<times> pyval) list" where
  "dli_info h p =
     bind_err (attr state (max_dli p)) (\<lambda>vmax.
     bind_err (attr state (min_dli p)) (\<lambda>vmin.
     bind_err (attr icon (dli p)) (\<lambda>ic.
     bind_err (attr unit_of_measurement (dli p)) (\<lambda>unit.
     bind_err (attr entity_id (dli p)) (\<lambda>eid.
     bind_err (attr state (dli p)) (\<lambda>st.
     bind_err (if py_truthy st \<and> st \<noteq> PStr STATE_UNKNOWN
               then bind_err (py_float (str_float h) st) (\<lambda>x. Inr (PNum x))
               else Inr (PStr STATE_UNAVAILABLE)) (\<lambda>cur.
       Inr [(ATTR_MAX, vmax), (ATTR_MIN, vmin), (ATTR_CURRENT, cur),
            (ATTR_ICON, ic), (ATTR_UNIT_OF_MEASUREMENT, unit),
            (ATTR_SENSOR, PStr eid)])))))))"

definition websocket_info ::
  "hass \<Rightarrow> plant \<Rightarrow> error + (string \<times> (string \<times> pyval) list) list" where
  "websocket_info h p =
     (if \<not> plant_complete p then Inr []
      else
        bind_err (meter_info (max_temperature p) (min_temperature p) (sensor_temperature p))
          (\<lambda>temperature.
        bind_err (meter_info (max_illuminance p) (min_illuminance p) (sensor_illuminance p))
          (\<lambda>illuminance.
        bind_err (meter_info (max_moisture p) (min_moisture p) (sensor_moisture p))
          (\<lambda>moisture.
        bind_err (meter_info (max_conductivity p) (min_conductivity p) (sensor_conductivity p))
          (\<lambda>conductivity.
        bind_err (meter_info (max_humidity p) (min_humidity p) (sensor_humidity p))
          (\<lambda>humidity.
        bind_err (dli_info h p) (\<lambda>dli_part.
          Inr [(ATTR_TEMPERATURE, temperature), (ATTR_ILLUMINANCE, illuminance),
               (ATTR_MOISTURE, moisture), (ATTR_CONDUCTIVITY, conductivity),
               (ATTR_HUMIDITY, humidity), (ATTR_DLI, dli_part)])))))))"

subsection \<open>Sequences of operations\<close>

text \<open>
  Every method of \<^verbatim>\<open>PlantDevice\<close> that writes a field, as one operation; \<open>exec_op\<close> is
  the device after the call, whether the call returned or raised. The host state may
  differ from call to call. \<^verbatim>\<open>async_added_to_hass\<close> is \<open>Update_registry\<close>.
\<close>

datatype op =
    Add_image pyval
  | Add_species pyval
  | Add_thresholds thresholds
  | Add_sensors "entity option" "entity option" "entity option" "entity option" "entity option"
  | Add_dli "entity option"
  | Add_calculations "entity option" "entity option"
  | Update
  | Update_registry

fun exec_op :: "hass \<Rightarrow> op \<Rightarrow> plant \<Rightarrow> plant" where
  "exec_op h (Add_image url) p = add_image url p"
| "exec_op h (Add_species sp) p = add_species sp p"
| "exec_op h (Add_thresholds t) p = add_thresholds t p"
| "exec_op h (Add_sensors m t c i hu) p = add_sensors m t c i hu p"
| "exec_op h (Add_dli d) p = add_dli d p"
| "exec_op h (Add_calculations pp ti) p = add_calculations pp ti p"
| "exec_op h Update p = plant_after (update h p)"
| "exec_op h Update_registry p = update_registry h p"

fun exec_ops :: "(hass \<times> op) list \<Rightarrow> plant \<Rightarrow> plant" where
  "exec_ops [] p = p"
| "exec_ops ((h, x) # xs) p = exec_ops xs (exec_op h x p)"

section \<open>Vocabulary for the properties\<close>

text \<open>
  \<^verbatim>\<open>update\<close> treats the six metrics one after the other, each in a block of its own.
  The definitions of this section name the metrics and give, for each, the fields its
  block reads and writes, so that a property can speak about any metric.
\<close>

datatype metric = Moisture | Conductivity | Temperature | Humidity | Illuminance | DLI

text \<open>The order in which \<^verbatim>\<open>update\<close> goes through the metrics.\<close>

definition eval_order :: "metric list" where
  "eval_order = [Moisture, Conductivity, Temperature, Humidity, Illuminance, DLI]"

fun status_of :: "metric \<Rightarrow> plant \<Rightarrow> string option" where
  "status_of Moisture p = moisture_status p"
| "status_of Conductivity p = conductivity_status p"
| "status_of Temperature p = temperature_status p"
| "status_of Humidity p = humidity_status p"
| "status_of Illuminance p = illuminance_status p"
| "status_of DLI p = dli_status p"

fun trigger_of :: "metric \<Rightarrow> plant \<Rightarrow> bool" where
  "trigger_of Moisture p = py_truthy (moisture_trigger p)"
| "trigger_of Conductivity p = py_truthy (conductivity_trigger p)"
| "trigger_of Temperature p = py_truthy (temperature_trigger p)"
| "trigger_of Humidity p = py_truthy (humidity_trigger p)"
| "trigger_of Illuminance p = py_truthy (illuminance_trigger p)"
| "trigger_of DLI p = py_truthy (dli_trigger p)"

fun source_of :: "metric \<Rightarrow> plant \<Rightarrow> entity option" where
  "source_of Moisture p = sensor_moisture p"
| "source_of Conductivity p = sensor_conductivity p"
| "source_of Temperature p = sensor_temperature p"
| "source_of Humidity p = sensor_humidity p"
| "source_of Illuminance p = sensor_illuminance p"
| "source_of DLI p = dli p"

fun min_of :: "metric \<Rightarrow> plant \<Rightarrow> entity option" where
  "min_of Moisture p = min_moisture p"
| "min_of Conductivity p = min_conductivity p"
| "min_of Temperature p = min_temperature p"
| "min_of Humidity p = min_humidity p"
| "min_of Illuminance p = min_illuminance p"
| "min_of DLI p = min_dli p"

fun max_of :: "metric \<Rightarrow> plant \<Rightarrow> entity option" where
  "max_of Moisture p = max_moisture p"
| "max_of Conductivity p = max_conductivity p"
| "max_of Temperature p = max_temperature p"
| "max_of Humidity p = max_humidity p"
| "max_of Illuminance p = max_illuminance p"
| "max_of DLI p = max_dli p"

fun block :: "metric \<Rightarrow> hass \<Rightarrow> frame \<Rightarrow> error + frame" where
  "block Moisture = moisture_block"
| "block Conductivity = conductivity_block"
| "block Temperature = temperature_block"
| "block Humidity = humidity_block"
| "block Illuminance = illuminance_block"
| "block DLI = dli_block"

text \<open>
  The guard of a block: the metric has a reading that is not absent, \<open>unknown\<close> or
  \<open>unavailable\<close>. For the five meters this is about the state the host holds for the
  sensor; for the DLI it is the guard on the DLI entity itself.
\<close>

definition known_reading :: "hass \<Rightarrow> plant \<Rightarrow> metric \<Rightarrow> bool" where
  "known_reading h p m =
     (case source_of m p of
        None \<Rightarrow> False
      | Some e \<Rightarrow>
          if m = DLI then dli_known e
          else (case sensor_state h e of
                  None \<Rightarrow> False
                | Some s \<Rightarrow> s \<noteq> STATE_UNKNOWN \<and> s \<noteq> STATE_UNAVAILABLE))"

text \<open>
  The number a block compares with the thresholds: the sensor state converted by
  \<^verbatim>\<open>float\<close>, and for the DLI the converted \<^verbatim>\<open>last_period\<close> attribute.
\<close>

definition reading :: "hass \<Rightarrow> plant \<Rightarrow> metric \<Rightarrow> error + pyfloat" where
  "reading h p m =
     (case source_of m p of
        None \<Rightarrow> Inl AttributeError
      | Some e \<Rightarrow>
          if m = DLI then last_period h e
          else (case sensor_state h e of
                  None \<Rightarrow> Inl TypeError
                | Some s \<Rightarrow> float_str (str_float h) s))"

text \<open>
  The comparisons of a block as a function of the reading, and the outcome of a whole
  block: an exception, nothing (the guard is closed), or the status it records. They are
  shown below to describe the six blocks exactly.
\<close>

definition two_sided :: "hass \<Rightarrow> plant \<Rightarrow> metric \<Rightarrow> pyfloat \<Rightarrow> error + string" where
  "two_sided h p m v =
     bind_err (float_state h (min_of m p)) (\<lambda>mn.
       if float_lt v mn then Inr STATE_LOW
       else bind_err (float_state h (max_of m p)) (\<lambda>mx.
              if float_gt v mx then Inr STATE_HIGH else Inr STATE_OK))"

definition classify :: "hass \<Rightarrow> plant \<Rightarrow> metric \<Rightarrow> pyfloat \<Rightarrow> error + string" where
  "classify h p m v =
     (if m = Illuminance then
        bind_err (float_state h (max_of m p)) (\<lambda>mx.
          if float_gt v mx then Inr STATE_HIGH else Inr STATE_OK)
      else if m = DLI then
        (if float_gt v (Finite 0) then two_sided h p m v else Inr STATE_OK)
      else two_sided h p m v)"

definition verdict :: "hass \<Rightarrow> plant \<Rightarrow> metric \<Rightarrow> error + string option" where
  "verdict h p m =
     (if known_reading h p m
      then bind_err (reading h p m) (\<lambda>v. bind_err (classify h p m v) (\<lambda>s. Inr (Some s)))
      else Inr None)"

fun set_status :: "metric \<Rightarrow> string \<Rightarrow> plant \<Rightarrow> plant" where
  "set_status Moisture s p = p\<lparr>moisture_status := Some s\<rparr>"
| "set_status Conductivity s p = p\<lparr>conductivity_status := Some s\<rparr>"
| "set_status Temperature s p = p\<lparr>temperature_status := Some s\<rparr>"
| "set_status Humidity s p = p\<lparr>humidity_status := Some s\<rparr>"
| "set_status Illuminance s p = p\<lparr>illuminance_status := Some s\<rparr>"
| "set_status DLI s p = p\<lparr>dli_status := Some s\<rparr>"

text \<open>What a block that classifies its metric as \<open>s\<close> does to the frame.\<close>

definition record_status :: "metric \<Rightarrow> string \<Rightarrow> frame \<Rightarrow> frame" where
  "record_status m s f =
     f\<lparr>self := set_status m s (self f),
       known_state := True,
       new_state := (if s \<noteq> STATE_OK \<and> trigger_of m (self f)
                     then STATE_PROBLEM else new_state f)\<rparr>"

text \<open>
  Two projections of the device: everything but the six statuses, and everything a pass
  reads (neither the statuses, nor the aggregate state, nor the device identifier).
\<close>

definition clear_statuses :: "plant \<Rightarrow> plant" where
  "clear_statuses p =
     p\<lparr>moisture_status := None, conductivity_status := None, temperature_status := None,
       humidity_status := None, illuminance_status := None, dli_status := None\<rparr>"

definition inputs :: "plant \<Rightarrow> plant" where
  "inputs p = (clear_statuses p)\<lparr>attr_state := [], device_id := None\<rparr>"

text \<open>The blocks of a list of metrics, run in order from a frame.\<close>

fun seq_blocks :: "hass \<Rightarrow> metric list \<Rightarrow> frame \<Rightarrow> (error \<times> plant) + frame" where
  "seq_blocks h [] f = Inr f"
| "seq_blocks h (m # ms) f =
     (case block m h f of Inl e \<Rightarrow> Inl (e, self f) | Inr f' \<Rightarrow> seq_blocks h ms f')"

text \<open>The status of a metric after its block has run.\<close>

definition verdict_status :: "hass \<Rightarrow> plant \<Rightarrow> metric \<Rightarrow> string option" where
  "verdict_status h p m =
     (case verdict h p m of Inr (Some s) \<Rightarrow> Some s | _ \<Rightarrow> status_of m p)"

text \<open>A metric whose block sets \<open>new_state\<close> to \<open>STATE_PROBLEM\<close>.\<close>

definition breach :: "hass \<Rightarrow> plant \<Rightarrow> metric \<Rightarrow> bool" where
  "breach h p m \<longleftrightarrow>
     (\<exists>s. verdict h p m = Inr (Some s) \<and> s \<noteq> STATE_OK \<and> trigger_of m p)"

definition frame_after :: "(error \<times> plant) + frame \<Rightarrow> plant" where
  "frame_after r = (case r of Inl (e, p) \<Rightarrow> p | Inr f \<Rightarrow> self f)"

definition raised :: "(error \<times> plant) + 'a \<Rightarrow> error option" where
  "raised r = (case r of Inl (e, p) \<Rightarrow> Some e | Inr x \<Rightarrow> None)"

definition frame0 :: "plant \<Rightarrow> frame" where
  "frame0 p = \<lparr>self = p, new_state = STATE_OK, known_state = False\<rparr>"

definition aggregate :: "frame \<Rightarrow> string" where
  "aggregate f = (if \<not> known_state f then STATE_UNKNOWN else new_state f)"

text \<open>The pass returned normally.\<close>

definition returned :: "(error \<times> plant) + plant \<Rightarrow> bool" where
  "returned r = (case r of Inl x \<Rightarrow> False | Inr p \<Rightarrow> True)"

text \<open>
  The four metrics the specification calls general: both thresholds apply to the
  instantaneous reading.
\<close>

definition general_metrics :: "metric set" where
  "general_metrics = {Moisture, Temperature, Conductivity, Humidity}"

text \<open>
  A reading outside its bounds, as the specification counts it: illuminance only above its
  maximum, the DLI only when the accumulated value is positive.
\<close>

definition breaches :: "metric \<Rightarrow> pyfloat \<Rightarrow> pyfloat \<Rightarrow> pyfloat \<Rightarrow> bool" where
  "breaches m v mn mx =
     (if m = Illuminance then float_gt v mx
      else if m = DLI then float_gt v (Finite 0) \<and> (float_lt v mn \<or> float_gt v mx)
      else float_lt v mn \<or> float_gt v mx)"

text \<open>The values a status field can take: unset, or one of the three classifications.\<close>

definition status_values :: "string option set" where
  "status_values = {None, Some STATE_OK, Some STATE_LOW, Some STATE_HIGH}"

text \<open>The one operation that marks the device complete.\<close>

definition is_add_dli :: "op \<Rightarrow> bool" where
  "is_add_dli x = (case x of Add_dli d \<Rightarrow> True | _ \<Rightarrow> False)"

section \<open>Example devices\<close>

text \<open>
  A device set up the way the integration does it (thresholds, then sensors, then the
  DLI sensor), with the thresholds of the scenarios of the specification: moisture
  between 20 and 60, illuminance at most 40000, DLI between 2 and 30. Thresholds are
  number entities, whose state is a number; sensor states are strings, converted by
  \<open>int_literal_float\<close>.
\<close>

definition ent :: "string \<Rightarrow> pyval \<Rightarrow> entity" where
  "ent eid st = \<lparr>entity_id = eid, state = st, native_value = st, icon = PNone,
     unit_of_measurement = PNone, extra_state_attributes = Map.empty\<rparr>"

definition num :: "rat \<Rightarrow> entity option" where
  "num x = Some (ent ''number.threshold'' (PNum (Finite x)))"

definition demo_thresholds :: thresholds where
  "demo_thresholds = \<lparr>
     t_max_moisture = num 60, t_min_moisture = num 20,
     t_max_temperature = num 40, t_min_temperature = num 10,
     t_max_conductivity = num 3000, t_min_conductivity = num 500,
     t_max_illuminance = num 40000, t_min_illuminance = num 0,
     t_max_humidity = num 60, t_min_humidity = num 20,
     t_max_dli = num 30, t_min_dli = num 2\<rparr>"

text \<open>Thresholds with the moisture bounds the wrong way round: minimum 60, maximum 20.\<close>

definition inverted_thresholds :: thresholds where
  "inverted_thresholds = demo_thresholds\<lparr>t_max_moisture := num 20, t_min_moisture := num 60\<rparr>"

definition demo_config :: "(string \<rightharpoonup> pyval) \<Rightarrow> config_entry" where
  "demo_config opts = \<lparr>entry_id = ''entry1'',
     plant_info = Some [ATTR_NAME \<mapsto> PStr ''Ficus''], options = opts\<rparr>"

text \<open>A DLI sensor with state \<open>st\<close> and accumulated value \<open>lp\<close> for the last period.\<close>

definition demo_dli :: "string \<Rightarrow> string \<Rightarrow> entity" where
  "demo_dli st lp = (ent ''sensor.dli'' (PStr st))
     \<lparr>extra_state_attributes := [''last_period'' \<mapsto> PStr lp]\<rparr>"

text \<open>The host with the given sensor states, and with no sensor state at all.\<close>

definition demo_hass :: "(string \<times> string) list \<Rightarrow> hass" where
  "demo_hass readings = \<lparr>states = map_of readings, registry_device_id = ''device1'',
     str_float = int_literal_float\<rparr>"

definition hass_none :: hass where
  "hass_none = demo_hass []"

definition demo_setup :: "thresholds \<Rightarrow> entity option \<Rightarrow> (hass \<times> op) list" where
  "demo_setup t d =
     [(hass_none, Add_thresholds t),
      (hass_none, Add_sensors (Some (ent ''sensor.moisture'' PNone))
         (Some (ent ''sensor.temperature'' PNone))
         (Some (ent ''sensor.conductivity'' PNone))
         (Some (ent ''sensor.illuminance'' PNone))
         (Some (ent ''sensor.humidity'' PNone))),
      (hass_none, Add_dli d)]"

text \<open>
  The freshly constructed device (the constructor succeeds on \<open>demo_config\<close>, see
  \<open>demo_init\<close> below) and the device after the setup.
\<close>

definition plant_new :: plant where
  "plant_new = projr (PlantDevice_init (demo_config Map.empty))"

definition demo_plant :: "(string \<rightharpoonup> pyval) \<Rightarrow> thresholds \<Rightarrow> entity option \<Rightarrow> plant" where
  "demo_plant opts t d = exec_ops (demo_setup t d) (projr (PlantDevice_init (demo_config opts)))"

text \<open>
  Scenarios A and B of the specification: moisture 15 against bounds 20 and 60, every
  other metric without a reading, the moisture trigger enabled (A) or disabled (B).
\<close>

definition hass_A :: hass where
  "hass_A = demo_hass [(''sensor.moisture'', ''15'')]"

definition plant_A :: plant where
  "plant_A = demo_plant Map.empty demo_thresholds None"

definition plant_B :: plant where
  "plant_B = demo_plant [FLOW_MOISTURE_TRIGGER \<mapsto> PBool False] demo_thresholds None"

text \<open>A moisture of 40 on a device whose moisture bounds are the wrong way round.\<close>

definition hass_I :: hass where
  "hass_I = demo_hass [(''sensor.moisture'', ''40'')]"

definition plant_I :: plant where
  "plant_I = demo_plant Map.empty inverted_thresholds None"

text \<open>Scenario D: illuminance 50000 against a maximum of 40000.\<close>

definition hass_D :: hass where
  "hass_D = demo_hass [(''sensor.illuminance'', ''50000'')]"

text \<open>
  Scenario E: the DLI sensor is the only source of data and its last period is 0; and
  the same device with a last period of 1, below the minimum of 2.
\<close>

definition plant_E :: plant where
  "plant_E = demo_plant Map.empty demo_thresholds (Some (demo_dli ''0'' ''0''))"

definition plant_L :: plant where
  "plant_L = demo_plant Map.empty demo_thresholds (Some (demo_dli ''1'' ''1''))"

text \<open>
  Two passes in a row: moisture 15 and temperature 20 in the first, the moisture sensor
  unavailable in the second.
\<close>

definition hass_first :: hass where
  "hass_first = demo_hass [(''sensor.moisture'', ''15''), (''sensor.temperature'', ''20'')]"

definition hass_second :: hass where
  "hass_second =
     demo_hass [(''sensor.moisture'', ''unavailable''), (''sensor.temperature'', ''20'')]"

definition plant_second :: plant where
  "plant_second = plant_after (update hass_first plant_A)"

definition later_ops :: "(hass \<times> op) list" where
  "later_ops = [(hass_second, Update),
                (hass_none, Add_sensors None None None None None),
                (hass_none, Update)]"

text \<open>A conductivity sensor whose state is not a number, next to a moisture of 15.\<close>

definition hass_M :: hass where
  "hass_M = demo_hass [(''sensor.moisture'', ''15''), (''sensor.conductivity'', ''abc'')]"

text \<open>A new device on which only \<^verbatim>\<open>add_dli\<close> has been called.\<close>

definition plant_dli_only :: plant where
  "plant_dli_only = exec_op hass_none (Add_dli (Some (demo_dli ''1'' ''1''))) plant_new"

section \<open>Basic facts\<close>

lemmas const_defs =
  STATE_OK_def STATE_PROBLEM_def STATE_UNKNOWN_def STATE_UNAVAILABLE_def
  STATE_LOW_def STATE_HIGH_def ATTR_ENTITY_PICTURE_def ATTR_ICON_def ATTR_NAME_def
  ATTR_UNIT_OF_MEASUREMENT_def ATTR_MOISTURE_def ATTR_TEMPERATURE_def
  ATTR_CONDUCTIVITY_def ATTR_ILLUMINANCE_def ATTR_HUMIDITY_def ATTR_DLI_def
  ATTR_SPECIES_def ATTR_MAX_def ATTR_MIN_def ATTR_CURRENT_def ATTR_SENSOR_def
  OPB_DISPLAY_PID_def FLOW_MOISTURE_TRIGGER_def FLOW_CONDUCTIVITY_TRIGGER_def
  FLOW_TEMPERATURE_TRIGGER_def FLOW_HUMIDITY_TRIGGER_def FLOW_ILLUMINANCE_TRIGGER_def
  FLOW_DLI_TRIGGER_def

lemma state_names_distinct:
  "STATE_LOW \<noteq> STATE_OK" "STATE_HIGH \<noteq> STATE_OK" "STATE_LOW \<noteq> STATE_HIGH"
  "STATE_PROBLEM \<noteq> STATE_OK" "STATE_UNKNOWN \<noteq> STATE_OK" "STATE_UNKNOWN \<noteq> STATE_PROBLEM"
  by (simp_all add: const_defs)

lemma bind_err_simps [simp]:
  "bind_err (Inl e) g = Inl e" "bind_err (Inr v) g = g v"
  by (simp_all add: bind_err_def)

subsection \<open>The blocks and their verdicts\<close>

text \<open>
  Each block of \<^verbatim>\<open>update\<close> does what \<open>verdict\<close> says: it raises, or leaves the frame
  alone, or records a status.
\<close>

lemma block_moisture: "block Moisture h f =
     (case verdict h (self f) Moisture of
        Inl e \<Rightarrow> Inl e | Inr None \<Rightarrow> Inr f | Inr (Some s) \<Rightarrow> Inr (record_status Moisture s f))"
  by (auto simp: moisture_block_def verdict_def known_reading_def reading_def classify_def
      two_sided_def record_status_def state_names_distinct bind_err_def
      split: option.splits sum.splits)

lemma block_conductivity: "block Conductivity h f =
     (case verdict h (self f) Conductivity of
        Inl e \<Rightarrow> Inl e | Inr None \<Rightarrow> Inr f | Inr (Some s) \<Rightarrow> Inr (record_status Conductivity s f))"
  by (auto simp: conductivity_block_def verdict_def known_reading_def reading_def classify_def
      two_sided_def record_status_def state_names_distinct bind_err_def
      split: option.splits sum.splits)

lemma block_illuminance: "block Illuminance h f =
     (case verdict h (self f) Illuminance of
        Inl e \<Rightarrow> Inl e | Inr None \<Rightarrow> Inr f | Inr (Some s) \<Rightarrow> Inr (record_status Illuminance s f))"
  by (auto simp: illuminance_block_def verdict_def known_reading_def reading_def classify_def
      two_sided_def record_status_def state_names_distinct bind_err_def
      split: option.splits sum.splits)

lemma block_dli: "block DLI h f =
     (case verdict h (self f) DLI of
        Inl e \<Rightarrow> Inl e | Inr None \<Rightarrow> Inr f | Inr (Some s) \<Rightarrow> Inr (record_status DLI s f))"
  by (auto simp: dli_block_def verdict_def known_reading_def reading_def classify_def
      two_sided_def record_status_def state_names_distinct bind_err_def
      split: option.splits sum.splits)

lemma block_temperature: "block Temperature h f =
     (case verdict h (self f) Temperature of
        Inl e \<Rightarrow> Inl e | Inr None \<Rightarrow> Inr f | Inr (Some s) \<Rightarrow> Inr (record_status Temperature s f))"
  by (auto simp: temperature_block_def verdict_def known_reading_def reading_def classify_def
      two_sided_def record_status_def state_names_distinct bind_err_def
      split: option.splits sum.splits)

lemma block_humidity: "block Humidity h f =
     (case verdict h (self f) Humidity of
        Inl e \<Rightarrow> Inl e | Inr None \<Rightarrow> Inr f | Inr (Some s) \<Rightarrow> Inr (record_status Humidity s f))"
  by (auto simp: humidity_block_def verdict_def known_reading_def reading_def classify_def
      two_sided_def record_status_def state_names_distinct bind_err_def
      split: option.splits sum.splits)

lemma block_verdict: "block m h f =
     (case verdict h (self f) m of
        Inl e \<Rightarrow> Inl e | Inr None \<Rightarrow> Inr f | Inr (Some s) \<Rightarrow> Inr (record_status m s f))"
  by (cases m)
    (simp_all only: block_moisture block_conductivity block_temperature block_humidity
      block_illuminance block_dli)

lemma run_blocks_seq:
  "run_blocks h p = seq_blocks h eval_order \<lparr>self = p, new_state = STATE_OK, known_state = False\<rparr>"
  by (simp add: run_blocks_def eval_order_def then_block_def split: sum.splits)

subsection \<open>What a block leaves alone\<close>

lemma clear_set_status [simp]: "clear_statuses (set_status m s p) = clear_statuses p"
  by (cases m) (simp_all add: clear_statuses_def)

lemma status_set_status [simp]:
  "status_of m' (set_status m s p) = (if m' = m then Some s else status_of m' p)"
  by (cases m; cases m') simp_all

lemma source_of_clear [simp]: "source_of m (clear_statuses p) = source_of m p"
  by (cases m) (simp_all add: clear_statuses_def)

lemma min_of_clear [simp]: "min_of m (clear_statuses p) = min_of m p"
  by (cases m) (simp_all add: clear_statuses_def)

lemma max_of_clear [simp]: "max_of m (clear_statuses p) = max_of m p"
  by (cases m) (simp_all add: clear_statuses_def)

lemma trigger_of_clear [simp]: "trigger_of m (clear_statuses p) = trigger_of m p"
  by (cases m)
    (simp_all add: clear_statuses_def moisture_trigger_def conductivity_trigger_def
      temperature_trigger_def humidity_trigger_def illuminance_trigger_def dli_trigger_def)

lemma verdict_clear: "verdict h (clear_statuses p) m = verdict h p m"
  by (simp add: verdict_def known_reading_def reading_def classify_def two_sided_def
      cong: if_cong)

lemma verdict_cong: "clear_statuses p = clear_statuses q \<Longrightarrow> verdict h p m = verdict h q m"
  using verdict_clear [of h p m] verdict_clear [of h q m] by simp

lemma trigger_of_cong:
  "clear_statuses p = clear_statuses q \<Longrightarrow> trigger_of m p = trigger_of m q"
  using trigger_of_clear [of m p] trigger_of_clear [of m q] by simp

lemma known_reading_cong:
  "clear_statuses p = clear_statuses q \<Longrightarrow> known_reading h p m = known_reading h q m"
  using source_of_clear [of m p] source_of_clear [of m q] by (simp add: known_reading_def)

lemma plant_eqI:
  assumes "clear_statuses p = clear_statuses q" and "\<And>m. status_of m p = status_of m q"
  shows "p = q"
proof -
  have "p = (clear_statuses p)\<lparr>moisture_status := status_of Moisture p,
        conductivity_status := status_of Conductivity p,
        temperature_status := status_of Temperature p,
        humidity_status := status_of Humidity p,
        illuminance_status := status_of Illuminance p,
        dli_status := status_of DLI p\<rparr>"
    by (simp add: clear_statuses_def)
  also have "\<dots> = (clear_statuses q)\<lparr>moisture_status := status_of Moisture q,
        conductivity_status := status_of Conductivity q,
        temperature_status := status_of Temperature q,
        humidity_status := status_of Humidity q,
        illuminance_status := status_of Illuminance q,
        dli_status := status_of DLI q\<rparr>"
    by (simp only: assms)
  also have "\<dots> = q"
    by (simp add: clear_statuses_def)
  finally show ?thesis .
qed

lemma verdict_known: "verdict h p m = Inr (Some s) \<Longrightarrow> known_reading h p m"
  by (simp add: verdict_def split: if_splits)

lemma verdict_unknown: "verdict h p m = Inr None \<longleftrightarrow> \<not> known_reading h p m"
  by (auto simp: verdict_def bind_err_def split: sum.splits)

lemma verdict_known_cases:
  "known_reading h p m \<Longrightarrow> (\<exists>e. verdict h p m = Inl e) \<or> (\<exists>s. verdict h p m = Inr (Some s))"
  by (auto simp: verdict_def bind_err_def split: sum.splits)

text \<open>One block, in terms of its verdict.\<close>

lemma block_Inr:
  assumes "block m h f = Inr f'"
  shows "(verdict h (self f) m = Inr None \<and> f' = f) \<or>
         (\<exists>s. verdict h (self f) m = Inr (Some s) \<and> f' = record_status m s f)"
  using assms by (auto simp: block_verdict split: sum.splits option.splits)

lemma block_Inl: "block m h f = Inl e \<longleftrightarrow> verdict h (self f) m = Inl e"
  by (auto simp: block_verdict split: sum.splits option.splits)

lemma block_clear: "block m h f = Inr f' \<Longrightarrow> clear_statuses (self f') = clear_statuses (self f)"
  by (auto dest!: block_Inr simp: record_status_def)

lemma seq_blocks_clear:
  "seq_blocks h ms f = Inr f' \<Longrightarrow> clear_statuses (self f') = clear_statuses (self f)"
proof (induction ms arbitrary: f)
  case Nil
  then show ?case by simp
next
  case (Cons m ms)
  then obtain f1 where b: "block m h f = Inr f1" and r: "seq_blocks h ms f1 = Inr f'"
    by (auto split: sum.splits)
  show ?case using Cons.IH [OF r] block_clear [OF b] by simp
qed

lemma seq_blocks_verdicts:
  "seq_blocks h ms f = Inr f' \<Longrightarrow> m \<in> set ms \<Longrightarrow> \<exists>r. verdict h (self f) m = Inr r"
proof (induction ms arbitrary: f)
  case Nil
  then show ?case by simp
next
  case (Cons a ms)
  then obtain f1 where b: "block a h f = Inr f1" and r: "seq_blocks h ms f1 = Inr f'"
    by (auto split: sum.splits)
  have v: "verdict h (self f1) m = verdict h (self f) m"
    by (rule verdict_cong [OF block_clear [OF b]])
  show ?case
  proof (cases "m = a")
    case True
    then show ?thesis using block_Inr [OF b] by auto
  next
    case False
    then have "m \<in> set ms" using Cons.prems by simp
    from Cons.IH [OF r this] v show ?thesis by simp
  qed
qed

lemma seq_blocks_status:
  "seq_blocks h ms f = Inr f' \<Longrightarrow> distinct ms \<Longrightarrow>
     status_of m (self f') = (if m \<in> set ms then verdict_status h (self f) m else status_of m (self f))"
proof (induction ms arbitrary: f)
  case Nil
  then show ?case by simp
next
  case (Cons a ms)
  then obtain f1 where b: "block a h f = Inr f1" and r: "seq_blocks h ms f1 = Inr f'"
    by (auto split: sum.splits)
  have d: "distinct ms" and a: "a \<notin> set ms" using Cons.prems by simp_all
  have v: "verdict h (self f1) m = verdict h (self f) m"
    by (rule verdict_cong [OF block_clear [OF b]])
  have ih: "status_of m (self f') =
      (if m \<in> set ms then verdict_status h (self f1) m else status_of m (self f1))"
    by (rule Cons.IH [OF r d])
  from block_Inr [OF b] show ?case
  proof (elim disjE conjE exE)
    assume "verdict h (self f) a = Inr None" "f1 = f"
    then show ?thesis using ih a by (auto simp: verdict_status_def)
  next
    fix s assume va: "verdict h (self f) a = Inr (Some s)" and f1: "f1 = record_status a s f"
    show ?thesis
    proof (cases "m = a")
      case True
      then show ?thesis using ih a va f1 by (simp add: verdict_status_def record_status_def)
    next
      case False
      then show ?thesis using ih v f1
        by (simp add: verdict_status_def record_status_def split: sum.splits option.splits)
    qed
  qed
qed

lemma seq_blocks_known:
  "seq_blocks h ms f = Inr f' \<Longrightarrow>
     known_state f' = (known_state f \<or> (\<exists>m\<in>set ms. known_reading h (self f) m))"
proof (induction ms arbitrary: f)
  case Nil
  then show ?case by simp
next
  case (Cons a ms)
  then obtain f1 where b: "block a h f = Inr f1" and r: "seq_blocks h ms f1 = Inr f'"
    by (auto split: sum.splits)
  have k: "\<And>m. known_reading h (self f1) m = known_reading h (self f) m"
    by (rule known_reading_cong [OF block_clear [OF b]])
  have ih: "known_state f' = (known_state f1 \<or> (\<exists>m\<in>set ms. known_reading h (self f) m))"
    using Cons.IH [OF r] k by simp
  from block_Inr [OF b] show ?case
  proof (elim disjE conjE exE)
    assume "verdict h (self f) a = Inr None" "f1 = f"
    then show ?thesis using ih by (auto simp: verdict_unknown)
  next
    fix s assume va: "verdict h (self f) a = Inr (Some s)" and f1: "f1 = record_status a s f"
    then show ?thesis using ih verdict_known [OF va] by (auto simp: record_status_def)
  qed
qed

lemma seq_blocks_new_state:
  "seq_blocks h ms f = Inr f' \<Longrightarrow>
     new_state f' = (if \<exists>m\<in>set ms. breach h (self f) m then STATE_PROBLEM else new_state f)"
proof (induction ms arbitrary: f)
  case Nil
  then show ?case by simp
next
  case (Cons a ms)
  then obtain f1 where b: "block a h f = Inr f1" and r: "seq_blocks h ms f1 = Inr f'"
    by (auto split: sum.splits)
  have c: "clear_statuses (self f1) = clear_statuses (self f)" by (rule block_clear [OF b])
  have k: "\<And>m. breach h (self f1) m = breach h (self f) m"
    unfolding breach_def using verdict_cong [OF c] trigger_of_cong [OF c] by simp
  have ih: "new_state f' =
      (if \<exists>m\<in>set ms. breach h (self f) m then STATE_PROBLEM else new_state f1)"
    using Cons.IH [OF r] k by simp
  from block_Inr [OF b] show ?case
  proof (elim disjE conjE exE)
    assume "verdict h (self f) a = Inr None" "f1 = f"
    then show ?thesis using ih by (auto simp: breach_def)
  next
    fix s assume va: "verdict h (self f) a = Inr (Some s)" and f1: "f1 = record_status a s f"
    then show ?thesis using ih by (auto simp: record_status_def breach_def)
  qed
qed

subsection \<open>What a pass reads\<close>

lemma inputs_clear [simp]: "inputs (clear_statuses p) = inputs p"
  by (simp add: inputs_def clear_statuses_def)

lemma clear_imp_inputs: "clear_statuses p = clear_statuses q \<Longrightarrow> inputs p = inputs q"
  by (simp add: inputs_def)

lemma source_of_inputs [simp]: "source_of m (inputs p) = source_of m p"
  by (cases m) (simp_all add: inputs_def clear_statuses_def)

lemma min_of_inputs [simp]: "min_of m (inputs p) = min_of m p"
  by (cases m) (simp_all add: inputs_def clear_statuses_def)

lemma max_of_inputs [simp]: "max_of m (inputs p) = max_of m p"
  by (cases m) (simp_all add: inputs_def clear_statuses_def)

lemma trigger_of_inputs [simp]: "trigger_of m (inputs p) = trigger_of m p"
  by (cases m)
    (simp_all add: inputs_def clear_statuses_def moisture_trigger_def conductivity_trigger_def
      temperature_trigger_def humidity_trigger_def illuminance_trigger_def dli_trigger_def)

lemma verdict_inputs: "verdict h (inputs p) m = verdict h p m"
  by (simp add: verdict_def known_reading_def reading_def classify_def two_sided_def
      cong: if_cong)

lemma known_reading_inputs: "known_reading h (inputs p) m = known_reading h p m"
  by (simp add: known_reading_def)

lemma verdict_inputs_cong: "inputs p = inputs q \<Longrightarrow> verdict h p m = verdict h q m"
  using verdict_inputs [of h p m] verdict_inputs [of h q m] by simp

lemma known_reading_inputs_cong:
  "inputs p = inputs q \<Longrightarrow> known_reading h p m = known_reading h q m"
  using known_reading_inputs [of h p m] known_reading_inputs [of h q m] by simp

lemma trigger_of_inputs_cong: "inputs p = inputs q \<Longrightarrow> trigger_of m p = trigger_of m q"
  using trigger_of_inputs [of m p] trigger_of_inputs [of m q] by simp

lemma breach_inputs_cong: "inputs p = inputs q \<Longrightarrow> breach h p m = breach h q m"
  unfolding breach_def using verdict_inputs_cong [of p q] trigger_of_inputs_cong [of p q]
  by simp

lemma set_eval_order [simp]: "set eval_order = UNIV"
proof -
  have "m \<in> set eval_order" for m by (cases m) (simp_all add: eval_order_def)
  then show ?thesis by auto
qed

lemma distinct_eval_order [simp]: "distinct eval_order"
  by (simp add: eval_order_def)

lemma run_blocks_seq0: "run_blocks h p = seq_blocks h eval_order (frame0 p)"
  by (simp add: run_blocks_seq frame0_def)

lemma verdict_range:
  "verdict h p m = Inr (Some s) \<Longrightarrow> s = STATE_LOW \<or> s = STATE_HIGH \<or> s = STATE_OK"
  by (auto simp: verdict_def classify_def two_sided_def bind_err_def
      split: if_splits sum.splits)

text \<open>Both outcomes of a run of blocks.\<close>

lemma seq_after_clear:
  "clear_statuses (frame_after (seq_blocks h ms f)) = clear_statuses (self f)"
proof (induction ms arbitrary: f)
  case Nil
  then show ?case by (simp add: frame_after_def)
next
  case (Cons a ms)
  show ?case
  proof (cases "block a h f")
    case (Inl e)
    then show ?thesis by (simp add: frame_after_def)
  next
    case (Inr f1)
    then show ?thesis using Cons.IH [of f1] block_clear [OF Inr] by simp
  qed
qed

lemma seq_after_status:
  "status_of m (frame_after (seq_blocks h ms f)) = status_of m (self f) \<or>
   (m \<in> set ms \<and> (\<exists>s. verdict h (self f) m = Inr (Some s)
      \<and> status_of m (frame_after (seq_blocks h ms f)) = Some s))"
proof (induction ms arbitrary: f)
  case Nil
  then show ?case by (simp add: frame_after_def)
next
  case (Cons a ms)
  show ?case
  proof (cases "block a h f")
    case (Inl e)
    then show ?thesis by (simp add: frame_after_def)
  next
    case (Inr f1)
    have v: "verdict h (self f1) m = verdict h (self f) m"
      by (rule verdict_cong [OF block_clear [OF Inr]])
    have s: "seq_blocks h (a # ms) f = seq_blocks h ms f1" using Inr by simp
    from block_Inr [OF Inr] have
      st: "status_of m (self f1) = status_of m (self f) \<or>
           (m = a \<and> (\<exists>s. verdict h (self f) m = Inr (Some s) \<and> status_of m (self f1) = Some s))"
      by (auto simp: record_status_def split: if_splits)
    from Cons.IH [of f1] show ?thesis
    proof
      assume "status_of m (frame_after (seq_blocks h ms f1)) = status_of m (self f1)"
      with st s show ?thesis by auto
    next
      assume "m \<in> set ms \<and> (\<exists>s. verdict h (self f1) m = Inr (Some s)
        \<and> status_of m (frame_after (seq_blocks h ms f1)) = Some s)"
      with v s show ?thesis by auto
    qed
  qed
qed

lemma seq_after_untouched:
  "m \<notin> set ms \<Longrightarrow> status_of m (frame_after (seq_blocks h ms f)) = status_of m (self f)"
  using seq_after_status [of m h ms f] by auto

lemma seq_blocks_total:
  "(\<And>m. m \<in> set ms \<Longrightarrow> \<exists>r. verdict h (self f) m = Inr r) \<Longrightarrow> \<exists>f'. seq_blocks h ms f = Inr f'"
proof (induction ms arbitrary: f)
  case Nil
  then show ?case by simp
next
  case (Cons a ms)
  from Cons.prems [of a] obtain r where r: "verdict h (self f) a = Inr r" by auto
  then obtain f1 where b: "block a h f = Inr f1"
    by (cases r) (simp_all add: block_verdict)
  have "\<exists>r. verdict h (self f1) m = Inr r" if "m \<in> set ms" for m
    using Cons.prems [of m] that verdict_cong [OF block_clear [OF b], of h m] by simp
  from Cons.IH [OF this] b show ?case by simp
qed

text \<open>A failed run leaves every metric from the failing one on untouched.\<close>

lemma seq_blocks_Inl_untouched:
  assumes "seq_blocks h ms f = Inl (e, p')"
    and "verdict h (self f) m = Inl e0"
    and "m' \<notin> set (takeWhile (\<lambda>x. x \<noteq> m) ms)"
  shows "status_of m' p' = status_of m' (self f)"
  using assms
proof (induction ms arbitrary: f)
  case Nil
  then show ?case by simp
next
  case (Cons a ms)
  show ?case
  proof (cases "block a h f")
    case (Inl e1)
    then show ?thesis using Cons.prems by simp
  next
    case (Inr f1)
    have c: "clear_statuses (self f1) = clear_statuses (self f)" by (rule block_clear [OF Inr])
    have am: "a \<noteq> m" using block_Inr [OF Inr] Cons.prems(2) by auto
    then have m': "m' \<noteq> a" "m' \<notin> set (takeWhile (\<lambda>x. x \<noteq> m) ms)"
      using Cons.prems(3) by auto
    have r: "seq_blocks h ms f1 = Inl (e, p')" using Cons.prems(1) Inr by simp
    have v: "verdict h (self f1) m = Inl e0"
      using verdict_cong [OF c, of h m] Cons.prems(2) by simp
    have "status_of m' p' = status_of m' (self f1)" by (rule Cons.IH [OF r v m'(2)])
    also have "\<dots> = status_of m' (self f)"
      using block_Inr [OF Inr] m'(1) by (auto simp: record_status_def)
    finally show ?thesis .
  qed
qed

subsection \<open>A whole pass\<close>

lemma status_of_update_registry [simp]: "status_of m (update_registry h p) = status_of m p"
  by (cases m) (simp_all add: update_registry_def)

lemma status_of_attr_state [simp]: "status_of m (p\<lparr>attr_state := a\<rparr>) = status_of m p"
  by (cases m) simp_all

lemma attr_state_update_registry [simp]: "attr_state (update_registry h p) = attr_state p"
  by (simp add: update_registry_def)

lemma inputs_update_registry [simp]: "inputs (update_registry h p) = inputs p"
  by (simp add: update_registry_def inputs_def clear_statuses_def)

lemma inputs_attr_state [simp]: "inputs (p\<lparr>attr_state := a\<rparr>) = inputs p"
  by (simp add: inputs_def clear_statuses_def)

lemma attr_state_clear: "clear_statuses p = clear_statuses q \<Longrightarrow> attr_state p = attr_state q"
proof -
  assume a: "clear_statuses p = clear_statuses q"
  have "attr_state p = attr_state (clear_statuses p)" by (simp add: clear_statuses_def)
  also have "\<dots> = attr_state (clear_statuses q)" by (simp only: a)
  also have "\<dots> = attr_state q" by (simp add: clear_statuses_def)
  finally show ?thesis .
qed

lemma plant_complete_clear:
  "clear_statuses p = clear_statuses q \<Longrightarrow> plant_complete p = plant_complete q"
proof -
  assume a: "clear_statuses p = clear_statuses q"
  have "plant_complete p = plant_complete (clear_statuses p)" by (simp add: clear_statuses_def)
  also have "\<dots> = plant_complete (clear_statuses q)" by (simp only: a)
  also have "\<dots> = plant_complete q" by (simp add: clear_statuses_def)
  finally show ?thesis .
qed

lemma update_registry_idem: "update_registry h (update_registry h p) = update_registry h p"
  by (simp add: update_registry_def)

lemma update_run:
  "update h p =
     (case seq_blocks h eval_order (frame0 p) of
        Inl x \<Rightarrow> Inl x
      | Inr f \<Rightarrow> Inr (update_registry h ((self f)\<lparr>attr_state := aggregate f\<rparr>)))"
  by (simp add: update_def run_blocks_seq0 aggregate_def split: sum.splits)

lemma update_Inr_D:
  assumes "update h p = Inr p'"
  obtains f where "seq_blocks h eval_order (frame0 p) = Inr f"
    and "p' = update_registry h ((self f)\<lparr>attr_state := aggregate f\<rparr>)"
  using assms by (auto simp: update_run split: sum.splits)

lemma update_Inl_iff:
  "update h p = Inl (e, p') \<longleftrightarrow> seq_blocks h eval_order (frame0 p) = Inl (e, p')"
  by (auto simp: update_run split: sum.splits)

lemma plant_after_update_Inl:
  "update h p = Inl (e, p') \<Longrightarrow> p' = frame_after (seq_blocks h eval_order (frame0 p))"
  by (simp add: update_Inl_iff frame_after_def)

lemma self_frame0 [simp]: "self (frame0 p) = p"
  by (simp add: frame0_def)

lemma update_verdicts: "update h p = Inr p' \<Longrightarrow> \<exists>r. verdict h p m = Inr r"
  by (erule update_Inr_D) (drule seq_blocks_verdicts [where m = m], simp_all)

lemma update_status: "update h p = Inr p' \<Longrightarrow> status_of m p' = verdict_status h p m"
  by (erule update_Inr_D) (drule seq_blocks_status [where m = m], simp_all)

lemma update_aggregate:
  assumes "update h p = Inr p'"
  shows "attr_state p' =
    (if \<forall>m. \<not> known_reading h p m then STATE_UNKNOWN
     else if \<exists>m. breach h p m then STATE_PROBLEM else STATE_OK)"
proof -
  from assms obtain f where s: "seq_blocks h eval_order (frame0 p) = Inr f"
    and p': "p' = update_registry h ((self f)\<lparr>attr_state := aggregate f\<rparr>)"
    by (rule update_Inr_D)
  have k: "known_state f = (\<exists>m. known_reading h p m)"
    using seq_blocks_known [OF s] by (simp add: frame0_def)
  have n: "new_state f = (if \<exists>m. breach h p m then STATE_PROBLEM else STATE_OK)"
    using seq_blocks_new_state [OF s] by (auto simp: frame0_def)
  show ?thesis unfolding p' by (auto simp: aggregate_def k n)
qed

lemma update_inputs: "inputs (plant_after (update h p)) = inputs p"
proof (cases "update h p")
  case (Inl x)
  obtain e p' where x: "x = (e, p')" by (cases x)
  have "p' = frame_after (seq_blocks h eval_order (frame0 p))"
    using Inl x by (simp add: plant_after_update_Inl)
  then have "clear_statuses p' = clear_statuses p" by (simp add: seq_after_clear)
  then have "inputs p' = inputs p" by (rule clear_imp_inputs)
  then show ?thesis using Inl x by (simp add: plant_after_def)
next
  case (Inr p')
  then obtain f where s: "seq_blocks h eval_order (frame0 p) = Inr f"
    and p': "p' = update_registry h ((self f)\<lparr>attr_state := aggregate f\<rparr>)"
    by (rule update_Inr_D)
  have "clear_statuses (self f) = clear_statuses p" using seq_blocks_clear [OF s] by simp
  then have "inputs (self f) = inputs p" by (rule clear_imp_inputs)
  then show ?thesis using Inr p' by (simp add: plant_after_def)
qed

lemma update_after_status:
  "status_of m (plant_after (update h p)) = status_of m p \<or>
   (\<exists>s. verdict h p m = Inr (Some s) \<and> status_of m (plant_after (update h p)) = Some s)"
proof (cases "update h p")
  case (Inl x)
  obtain e p' where x: "x = (e, p')" by (cases x)
  have "p' = frame_after (seq_blocks h eval_order (frame0 p))"
    using Inl x by (simp add: plant_after_update_Inl)
  then show ?thesis using seq_after_status [of m h eval_order "frame0 p"] Inl x
    by (auto simp: plant_after_def)
next
  case (Inr p')
  have "status_of m p' = verdict_status h p m" by (rule update_status [OF Inr])
  then show ?thesis using Inr
    by (auto simp: plant_after_def verdict_status_def split: sum.splits option.splits)
qed

lemma update_Inl_attr_state: "update h p = Inl (e, p') \<Longrightarrow> attr_state p' = attr_state p"
proof -
  assume "update h p = Inl (e, p')"
  then have "p' = frame_after (seq_blocks h eval_order (frame0 p))"
    by (rule plant_after_update_Inl)
  then have "clear_statuses p' = clear_statuses p" by (simp add: seq_after_clear)
  then show ?thesis by (rule attr_state_clear)
qed

lemma update_raises: "verdict h p m = Inl e0 \<Longrightarrow> \<exists>e p'. update h p = Inl (e, p')"
proof (cases "update h p")
  case (Inl x)
  then show ?thesis by (cases x) simp
next
  case (Inr p')
  assume "verdict h p m = Inl e0"
  with update_verdicts [OF Inr, of m] show ?thesis by simp
qed

lemma update_returns:
  "(\<And>m. \<exists>r. verdict h p m = Inr r) \<Longrightarrow> \<exists>p'. update h p = Inr p'"
proof -
  assume "\<And>m. \<exists>r. verdict h p m = Inr r"
  then have "\<exists>f'. seq_blocks h eval_order (frame0 p) = Inr f'"
    by (intro seq_blocks_total) simp
  then show ?thesis by (auto simp: update_run)
qed

text \<open>A second pass over the same inputs.\<close>

lemma set_status_same: "status_of m p = Some s \<Longrightarrow> set_status m s p = p"
  by (cases m) simp_all

lemma seq_blocks_again:
  assumes "distinct ms"
    and "inputs (self g) = inputs (self f)"
    and "\<And>m. m \<in> set ms \<Longrightarrow>
           status_of m (self g) = status_of m (frame_after (seq_blocks h ms f))"
  shows "frame_after (seq_blocks h ms g) = self g
       \<and> raised (seq_blocks h ms g) = raised (seq_blocks h ms f)"
  using assms
proof (induction ms arbitrary: f g)
  case Nil
  then show ?case by (simp add: frame_after_def raised_def)
next
  case (Cons a ms)
  have va: "verdict h (self g) a = verdict h (self f) a"
    by (rule verdict_inputs_cong [OF Cons.prems(2)])
  have d: "distinct ms" and a: "a \<notin> set ms" using Cons.prems(1) by simp_all
  show ?case
  proof (cases "verdict h (self f) a")
    case (Inl e)
    then show ?thesis using va by (simp add: block_verdict frame_after_def raised_def)
  next
    case (Inr r)
    show ?thesis
    proof (cases r)
      case None
      have bf: "block a h f = Inr f" and bg: "block a h g = Inr g"
        using Inr None va by (simp_all add: block_verdict)
      have "frame_after (seq_blocks h ms g) = self g
          \<and> raised (seq_blocks h ms g) = raised (seq_blocks h ms f)"
      proof (rule Cons.IH [OF d Cons.prems(2)])
        fix m assume "m \<in> set ms"
        then show "status_of m (self g) = status_of m (frame_after (seq_blocks h ms f))"
          using Cons.prems(3) [of m] bf by simp
      qed
      then show ?thesis using bf bg by simp
    next
      case (Some s)
      let ?f1 = "record_status a s f" and ?g1 = "record_status a s g"
      have bf: "block a h f = Inr ?f1" and bg: "block a h g = Inr ?g1"
        using Inr Some va by (simp_all add: block_verdict)
      have "status_of a (self g) = status_of a (frame_after (seq_blocks h ms ?f1))"
        using Cons.prems(3) [of a] bf by simp
      also have "\<dots> = status_of a (self ?f1)" by (rule seq_after_untouched [OF a])
      also have "\<dots> = Some s" by (simp add: record_status_def)
      finally have sg: "self ?g1 = self g" by (simp add: record_status_def set_status_same)
      have i: "inputs (self ?g1) = inputs (self ?f1)"
        using Cons.prems(2) sg clear_imp_inputs [OF block_clear [OF bf]] by simp
      have "frame_after (seq_blocks h ms ?g1) = self ?g1
          \<and> raised (seq_blocks h ms ?g1) = raised (seq_blocks h ms ?f1)"
      proof (rule Cons.IH [OF d i])
        fix m assume "m \<in> set ms"
        then show "status_of m (self ?g1) = status_of m (frame_after (seq_blocks h ms ?f1))"
          using Cons.prems(3) [of m] bf sg by simp
      qed
      then show ?thesis using bf bg sg by simp
    qed
  qed
qed

lemma update_again: "update h (plant_after (update h p)) = update h p"
proof (cases "update h p")
  case (Inl x)
  obtain e p' where x: "x = (e, p')" by (cases x)
  have s: "seq_blocks h eval_order (frame0 p) = Inl (e, p')"
    using Inl x by (simp add: update_Inl_iff)
  have i: "inputs (self (frame0 p')) = inputs (self (frame0 p))"
    using update_inputs [of h p] Inl x by (simp add: plant_after_def)
  have "frame_after (seq_blocks h eval_order (frame0 p')) = self (frame0 p')
      \<and> raised (seq_blocks h eval_order (frame0 p')) = raised (seq_blocks h eval_order (frame0 p))"
    by (rule seq_blocks_again [OF distinct_eval_order i]) (simp add: s frame_after_def)
  then have "seq_blocks h eval_order (frame0 p') = Inl (e, p')"
    by (auto simp: s frame_after_def raised_def split: sum.splits)
  then have "update h p' = Inl (e, p')" by (simp add: update_Inl_iff)
  then show ?thesis by (simp add: Inl x plant_after_def)
next
  case (Inr p')
  then obtain f where s: "seq_blocks h eval_order (frame0 p) = Inr f"
    and p': "p' = update_registry h ((self f)\<lparr>attr_state := aggregate f\<rparr>)"
    by (rule update_Inr_D)
  have i: "inputs (self (frame0 p')) = inputs (self (frame0 p))"
    using update_inputs [of h p] Inr by (simp add: plant_after_def)
  have "frame_after (seq_blocks h eval_order (frame0 p')) = self (frame0 p')
      \<and> raised (seq_blocks h eval_order (frame0 p')) = raised (seq_blocks h eval_order (frame0 p))"
    by (rule seq_blocks_again [OF distinct_eval_order i]) (simp add: s frame_after_def p')
  then obtain g where g: "seq_blocks h eval_order (frame0 p') = Inr g" and sg: "self g = p'"
    by (auto simp: s frame_after_def raised_def split: sum.splits)
  have k: "known_state g = known_state f"
    using seq_blocks_known [OF g] seq_blocks_known [OF s] known_reading_inputs_cong [OF i]
    by (auto simp: frame0_def)
  have n: "new_state g = new_state f"
    using seq_blocks_new_state [OF g] seq_blocks_new_state [OF s] breach_inputs_cong [OF i]
    by (auto simp: frame0_def)
  have ag: "aggregate g = attr_state p'" by (simp add: aggregate_def k n p')
  have "update h p' = Inr (update_registry h (p'\<lparr>attr_state := attr_state p'\<rparr>))"
    by (simp add: update_run g sg ag)
  also have "\<dots> = Inr (update_registry h p')" by simp
  also have "\<dots> = Inr p'" by (simp add: p' update_registry_idem)
  finally show ?thesis by (simp add: Inr plant_after_def)
qed

subsection \<open>Readings and classifications\<close>

lemma float_le_not_lt: "float_le a b \<Longrightarrow> \<not> float_lt b a"
  by (cases a; cases b) auto

lemma returned_D: "returned r \<Longrightarrow> r = Inr (plant_after r)"
  by (cases r) (simp_all add: returned_def plant_after_def)

lemma verdict_reading:
  "known_reading h p m \<Longrightarrow> reading h p m = Inr v \<Longrightarrow>
     verdict h p m = bind_err (classify h p m v) (\<lambda>s. Inr (Some s))"
  by (simp add: verdict_def)

lemma verdict_reading_Inl:
  "known_reading h p m \<Longrightarrow> reading h p m = Inl e \<Longrightarrow> verdict h p m = Inl e"
  by (simp add: verdict_def)

lemma two_sided_parsed:
  "float_state h (min_of m p) = Inr mn \<Longrightarrow> float_state h (max_of m p) = Inr mx \<Longrightarrow>
     two_sided h p m v =
       Inr (if float_lt v mn then STATE_LOW else if float_gt v mx then STATE_HIGH else STATE_OK)"
  by (simp add: two_sided_def)

lemma update_known_status:
  assumes "update h p = Inr p'" and "known_reading h p m"
  shows "\<exists>s. verdict h p m = Inr (Some s) \<and> status_of m p' = Some s"
proof -
  from update_verdicts [OF assms(1), of m] verdict_known_cases [OF assms(2)]
  obtain s where s: "verdict h p m = Inr (Some s)" by auto
  then show ?thesis using update_status [OF assms(1), of m] by (simp add: verdict_status_def)
qed

lemma update_unknown_status:
  assumes "update h p = Inr p'" and "\<not> known_reading h p m"
  shows "status_of m p' = status_of m p"
  using update_status [OF assms(1), of m] assms(2)
  by (simp add: verdict_status_def verdict_unknown [symmetric])

lemma update_classified:
  assumes "update h p = Inr p'" and "known_reading h p m" and "reading h p m = Inr v"
  shows "\<exists>s. classify h p m v = Inr s \<and> status_of m p' = Some s"
  using update_known_status [OF assms(1,2)] verdict_reading [OF assms(2,3)]
  by (auto simp: bind_err_def split: sum.splits)

lemma update_known_reading:
  assumes "update h p = Inr p'" and "known_reading h p m"
  shows "\<exists>v. reading h p m = Inr v"
  using update_known_status [OF assms] assms(2)
  by (auto simp: verdict_def bind_err_def split: sum.splits)

lemma breach_iff:
  assumes "update h p = Inr p'"
  shows "breach h p m \<longleftrightarrow>
    known_reading h p m \<and> trigger_of m p \<and> status_of m p' \<in> {Some STATE_LOW, Some STATE_HIGH}"
proof
  assume "breach h p m"
  then obtain s where s: "verdict h p m = Inr (Some s)" "s \<noteq> STATE_OK" "trigger_of m p"
    by (auto simp: breach_def)
  have "status_of m p' = Some s"
    using update_status [OF assms, of m] s(1) by (simp add: verdict_status_def)
  then show "known_reading h p m \<and> trigger_of m p
      \<and> status_of m p' \<in> {Some STATE_LOW, Some STATE_HIGH}"
    using s verdict_known [OF s(1)] verdict_range [OF s(1)] by auto
next
  assume a: "known_reading h p m \<and> trigger_of m p
      \<and> status_of m p' \<in> {Some STATE_LOW, Some STATE_HIGH}"
  then obtain s where s: "verdict h p m = Inr (Some s)" "status_of m p' = Some s"
    using update_known_status [OF assms, of m] by auto
  then show "breach h p m" using a
    by (auto simp: breach_def state_names_distinct state_names_distinct [symmetric])
qed

lemma classify_general:
  assumes "m \<in> general_metrics"
    and "float_state h (min_of m p) = Inr mn" and "float_state h (max_of m p) = Inr mx"
  shows "classify h p m v =
    Inr (if float_lt v mn then STATE_LOW else if float_gt v mx then STATE_HIGH else STATE_OK)"
  using assms by (auto simp: classify_def general_metrics_def two_sided_parsed)

lemma update_general:
  assumes "update h p = Inr p'" and "m \<in> general_metrics" and "known_reading h p m"
    and "reading h p m = Inr v"
    and "float_state h (min_of m p) = Inr mn" and "float_state h (max_of m p) = Inr mx"
  shows "status_of m p' =
    Some (if float_lt v mn then STATE_LOW else if float_gt v mx then STATE_HIGH else STATE_OK)"
  using update_classified [OF assms(1,3,4)] classify_general [OF assms(2,5,6), of v] by auto

lemma two_sided_Inr:
  assumes "two_sided h p m v = Inr s"
  shows "\<exists>mn. float_state h (min_of m p) = Inr mn
     \<and> (float_lt v mn \<longrightarrow> s = STATE_LOW)
     \<and> (\<not> float_lt v mn \<longrightarrow>
          (\<exists>mx. float_state h (max_of m p) = Inr mx
             \<and> (float_gt v mx \<longrightarrow> s = STATE_HIGH)
             \<and> (\<not> float_gt v mx \<longrightarrow> s = STATE_OK)))"
  using assms by (auto simp: two_sided_def bind_err_def split: sum.splits if_splits)

lemma update_unknown_iff:
  assumes "update h p = Inr p'"
  shows "attr_state p' = STATE_UNKNOWN \<longleftrightarrow> (\<forall>m. \<not> known_reading h p m)"
  unfolding update_aggregate [OF assms]
  using state_names_distinct state_names_distinct [symmetric] by auto

subsection \<open>Sequences of operations\<close>

lemma init_fresh:
  assumes "PlantDevice_init cfg = Inr p0"
  shows "status_of m p0 = None" and "\<not> plant_complete p0" and "attr_state p0 = STATE_UNKNOWN"
  using assms
  by (cases m; auto simp: PlantDevice_init_def Let_def split: option.splits)+

lemma exec_op_status:
  "x \<noteq> Update \<Longrightarrow> status_of m (exec_op h x p) = status_of m p"
  by (cases x; cases m)
    (simp_all add: add_image_def add_species_def add_thresholds_def add_sensors_def
      add_dli_def add_calculations_def update_registry_def)

lemma exec_op_status_cases:
  "status_of m (exec_op h x p) = status_of m p \<or>
   (\<exists>s. x = Update \<and> verdict h p m = Inr (Some s) \<and> status_of m (exec_op h x p) = Some s)"
proof (cases "x = Update")
  case True
  then show ?thesis using update_after_status [of m h p] by auto
next
  case False
  then show ?thesis by (simp add: exec_op_status)
qed

lemma verdict_illuminance:
  "verdict h p Illuminance = Inr (Some s) \<Longrightarrow> s = STATE_HIGH \<or> s = STATE_OK"
  by (auto simp: verdict_def classify_def bind_err_def split: if_splits sum.splits)

lemma exec_op_illuminance:
  "status_of Illuminance p \<noteq> Some STATE_LOW \<Longrightarrow>
     status_of Illuminance (exec_op h x p) \<noteq> Some STATE_LOW"
  using exec_op_status_cases [of Illuminance h x p] verdict_illuminance [of h p]
  by (auto simp: state_names_distinct state_names_distinct [symmetric])

lemma exec_ops_illuminance:
  "status_of Illuminance p \<noteq> Some STATE_LOW \<Longrightarrow>
     status_of Illuminance (exec_ops xs p) \<noteq> Some STATE_LOW"
proof (induction xs arbitrary: p)
  case Nil
  then show ?case by simp
next
  case (Cons a xs)
  obtain h x where a: "a = (h, x)" by (cases a)
  show ?case unfolding a exec_ops.simps
    by (rule Cons.IH) (rule exec_op_illuminance [OF Cons.prems])
qed

lemma update_illuminance:
  assumes "update h p = Inr p'" and "known_reading h p Illuminance"
    and "reading h p Illuminance = Inr v"
    and "float_state h (max_of Illuminance p) = Inr mx"
  shows "status_of Illuminance p' = Some (if float_gt v mx then STATE_HIGH else STATE_OK)"
  using update_classified [OF assms(1,2,3)] assms(4) by (auto simp: classify_def)

lemma classify_breaches:
  assumes "breaches m v mn mx"
    and "float_state h (min_of m p) = Inr mn" and "float_state h (max_of m p) = Inr mx"
    and "classify h p m v = Inr s"
  shows "s = STATE_LOW \<or> s = STATE_HIGH"
  using assms
  by (auto simp: breaches_def classify_def two_sided_def split: if_splits)

lemma update_problem:
  assumes "update h p = Inr p'" and "attr_state p' = STATE_PROBLEM"
  shows "\<exists>m. breach h p m"
  using assms(2) unfolding update_aggregate [OF assms(1)]
  using state_names_distinct state_names_distinct [symmetric]
  by (auto split: if_splits)

lemma update_plant_complete: "plant_complete (plant_after (update h p)) = plant_complete p"
proof (cases "update h p")
  case (Inl x)
  obtain e p' where x: "x = (e, p')" by (cases x)
  have "p' = frame_after (seq_blocks h eval_order (frame0 p))"
    using Inl x by (simp add: plant_after_update_Inl)
  then have "clear_statuses p' = clear_statuses p" by (simp add: seq_after_clear)
  then have "plant_complete p' = plant_complete p" by (rule plant_complete_clear)
  then show ?thesis using Inl x by (simp add: plant_after_def)
next
  case (Inr p')
  then obtain f where s: "seq_blocks h eval_order (frame0 p) = Inr f"
    and p': "p' = update_registry h ((self f)\<lparr>attr_state := aggregate f\<rparr>)"
    by (rule update_Inr_D)
  have "clear_statuses (self f) = clear_statuses p" using seq_blocks_clear [OF s] by simp
  then have "plant_complete (self f) = plant_complete p" by (rule plant_complete_clear)
  then show ?thesis using Inr p' by (simp add: plant_after_def update_registry_def)
qed

lemma exec_op_complete:
  "plant_complete (exec_op h x p) \<longleftrightarrow> plant_complete p \<or> is_add_dli x"
  by (cases x)
    (simp_all add: is_add_dli_def add_image_def add_species_def add_thresholds_def
      add_sensors_def add_dli_def add_calculations_def update_registry_def
      update_plant_complete)

lemma exec_ops_complete:
  "plant_complete (exec_ops xs p) \<longleftrightarrow> plant_complete p \<or> (\<exists>x\<in>set xs. is_add_dli (snd x))"
proof (induction xs arbitrary: p)
  case Nil
  then show ?case by simp
next
  case (Cons a xs)
  obtain h x where a: "a = (h, x)" by (cases a)
  show ?case unfolding a exec_ops.simps Cons.IH exec_op_complete by auto
qed

lemma seq_blocks_first_error:
  assumes "seq_blocks h ms f = Inl (e, p')"
    and "m \<in> set ms"
    and "verdict h (self f) m = Inl e0"
    and "\<And>m'. m' \<in> set (takeWhile (\<lambda>x. x \<noteq> m) ms) \<Longrightarrow> \<exists>r. verdict h (self f) m' = Inr r"
  shows "e = e0"
  using assms
proof (induction ms arbitrary: f)
  case Nil
  then show ?case by simp
next
  case (Cons a ms)
  show ?case
  proof (cases "a = m")
    case True
    then have "block a h f = Inl e0" using Cons.prems(3) by (simp add: block_Inl)
    then show ?thesis using Cons.prems(1) by simp
  next
    case False
    then have "\<exists>r. verdict h (self f) a = Inr r" using Cons.prems(4) [of a] by simp
    then obtain f1 where b: "block a h f = Inr f1"
      by (cases "block a h f") (auto simp: block_Inl)
    have c: "clear_statuses (self f1) = clear_statuses (self f)" by (rule block_clear [OF b])
    have r: "seq_blocks h ms f1 = Inl (e, p')" using Cons.prems(1) b by simp
    have m: "m \<in> set ms" using Cons.prems(2) False by simp
    have v: "verdict h (self f1) m = Inl e0"
      using verdict_cong [OF c, of h m] Cons.prems(3) by simp
    have "\<exists>r. verdict h (self f1) m' = Inr r"
      if "m' \<in> set (takeWhile (\<lambda>x. x \<noteq> m) ms)" for m'
      using Cons.prems(4) [of m'] that False verdict_cong [OF c, of h m'] by simp
    from Cons.IH [OF r m v this] show ?thesis .
  qed
qed

lemma exec_op_sticky: "status_of m p \<noteq> None \<Longrightarrow> status_of m (exec_op h x p) \<noteq> None"
  using exec_op_status_cases [of m h x p] by auto

lemma exec_ops_sticky: "status_of m p \<noteq> None \<Longrightarrow> status_of m (exec_ops xs p) \<noteq> None"
proof (induction xs arbitrary: p)
  case Nil
  then show ?case by simp
next
  case (Cons a xs)
  obtain h x where a: "a = (h, x)" by (cases a)
  show ?case unfolding a exec_ops.simps
    by (rule Cons.IH) (rule exec_op_sticky [OF Cons.prems])
qed

lemma exec_op_values:
  "status_of m p \<in> status_values \<Longrightarrow> status_of m (exec_op h x p) \<in> status_values"
  using exec_op_status_cases [of m h x p] verdict_range [of h p m]
  by (auto simp: status_values_def)

lemma exec_ops_values:
  "status_of m p \<in> status_values \<Longrightarrow> status_of m (exec_ops xs p) \<in> status_values"
proof (induction xs arbitrary: p)
  case Nil
  then show ?case by simp
next
  case (Cons a xs)
  obtain h x where a: "a = (h, x)" by (cases a)
  show ?case unfolding a exec_ops.simps
    by (rule Cons.IH) (rule exec_op_values [OF Cons.prems])
qed

section \<open>Evaluating the examples\<close>

lemmas demo_defs = ent_def num_def demo_thresholds_def inverted_thresholds_def demo_config_def
  demo_dli_def demo_setup_def demo_plant_def demo_hass_def hass_none_def plant_new_def
  PlantDevice_init_def dict_get_def dict_item_def py_or_def add_thresholds_def add_sensors_def
  add_dli_def Let_def

lemmas scenario_defs = hass_A_def plant_A_def plant_B_def hass_I_def plant_I_def hass_D_def
  plant_E_def plant_L_def
  hass_first_def hass_second_def plant_second_def later_ops_def hass_M_def plant_dli_only_def

lemmas eval_defs = update_def run_blocks_def then_block_def moisture_block_def
  conductivity_block_def temperature_block_def humidity_block_def illuminance_block_def
  dli_block_def dli_known_def last_period_def float_state_def float_str_def attr_def
  sensor_state_def update_registry_def plant_after_def bind_err_def float_gt_def
  moisture_trigger_def conductivity_trigger_def temperature_trigger_def humidity_trigger_def
  illuminance_trigger_def dli_trigger_def known_reading_def reading_def

lemma demo_init:
  "PlantDevice_init (demo_config opts) = Inr (projr (PlantDevice_init (demo_config opts)))"
  by (simp add: demo_defs const_defs)

section \<open>The properties of the specification\<close>

text \<open>
  Claim C1, as amended. After a pass that returns, the aggregate state is \<open>unknown\<close>
  exactly when no metric had a known reading in that pass. Otherwise it is \<open>problem\<close>
  exactly when some metric with a known reading in this pass and an enabled trigger was
  classified \<open>low\<close> or \<open>high\<close>, and \<open>ok\<close> exactly when there is no such metric. A
  status retained from an earlier pass does not count: the counterexample is a second
  pass in which the moisture sensor is unavailable, the moisture status is still \<open>low\<close>
  with its trigger enabled, and the aggregate state is \<open>ok\<close>.
\<close>

theorem aggregate_state_rule:
  assumes "update h p = Inr p'"
  shows "(attr_state p' = STATE_UNKNOWN \<longleftrightarrow> (\<forall>m. \<not> known_reading h p m))
    \<and> ((\<exists>m. known_reading h p m) \<longrightarrow>
         (attr_state p' = STATE_PROBLEM \<longleftrightarrow>
            (\<exists>m. known_reading h p m \<and> trigger_of m p
                  \<and> status_of m p' \<in> {Some STATE_LOW, Some STATE_HIGH}))
       \<and> (attr_state p' = STATE_OK \<longleftrightarrow>
            \<not> (\<exists>m. known_reading h p m \<and> trigger_of m p
                  \<and> status_of m p' \<in> {Some STATE_LOW, Some STATE_HIGH})))"
proof -
  have b: "(\<exists>m. breach h p m) \<longleftrightarrow>
      (\<exists>m. known_reading h p m \<and> trigger_of m p
            \<and> status_of m p' \<in> {Some STATE_LOW, Some STATE_HIGH})"
    using breach_iff [OF assms] by simp
  show ?thesis
    unfolding b [symmetric] update_aggregate [OF assms]
    using state_names_distinct state_names_distinct [symmetric] by auto
qed

theorem aggregate_state_rule_witness:
  "update hass_A plant_A = Inr (plant_after (update hass_A plant_A))
   \<and> known_reading hass_A plant_A Moisture
   \<and> trigger_of Moisture plant_A
   \<and> status_of Moisture (plant_after (update hass_A plant_A)) = Some STATE_LOW
   \<and> attr_state (plant_after (update hass_A plant_A)) = STATE_PROBLEM"
proof -
  have u: "update hass_A plant_A = Inr (plant_after (update hass_A plant_A))"
    by (simp add: scenario_defs demo_defs eval_defs const_defs)
  have k: "known_reading hass_A plant_A Moisture"
    by (simp add: scenario_defs demo_defs eval_defs const_defs)
  have t: "trigger_of Moisture plant_A"
    by (simp add: scenario_defs demo_defs moisture_trigger_def)
  have s: "status_of Moisture (plant_after (update hass_A plant_A)) = Some STATE_LOW"
    by (simp add: scenario_defs demo_defs eval_defs const_defs)
  from aggregate_state_rule [OF u] k t s
  have "attr_state (plant_after (update hass_A plant_A)) = STATE_PROBLEM" by blast
  with u k t s show ?thesis by simp
qed

theorem aggregate_state_rule_counterexample:
  "update hass_second plant_second = Inr (plant_after (update hass_second plant_second))
   \<and> known_reading hass_second plant_second Temperature
   \<and> trigger_of Moisture plant_second
   \<and> status_of Moisture (plant_after (update hass_second plant_second)) = Some STATE_LOW
   \<and> attr_state (plant_after (update hass_second plant_second)) = STATE_OK
   \<and> STATE_OK \<noteq> STATE_PROBLEM \<and> STATE_OK \<noteq> STATE_UNKNOWN"
  by (simp add: scenario_defs demo_defs eval_defs const_defs)

text \<open>
  Claim C2, as amended. In a pass that returns, the DLI is skipped (status kept, nothing
  contributed to \<open>known_state\<close>) exactly when the DLI entity is missing, its native value
  is \<open>unknown\<close> or \<open>unavailable\<close>, or its state is \<open>None\<close>. Otherwise it always
  contributes to \<open>known_state\<close>, so the aggregate state is not \<open>unknown\<close>, and its status
  is \<open>ok\<close> when the accumulated value of the last period is not positive; when that
  value is positive the status is \<open>low\<close> below the minimum, else \<open>high\<close> above the
  maximum, else \<open>ok\<close>. The counterexample is scenario E: with a last period of 0 and no
  other data the DLI status becomes \<open>ok\<close> and the aggregate state \<open>ok\<close>, not
  \<open>unknown\<close>.
\<close>

theorem dli_classification:
  assumes "update h p = Inr p'"
  shows "(\<not> known_reading h p DLI \<longrightarrow>
            status_of DLI p' = status_of DLI p
          \<and> (attr_state p' = STATE_UNKNOWN \<longleftrightarrow> (\<forall>m. m \<noteq> DLI \<longrightarrow> \<not> known_reading h p m)))
       \<and> (known_reading h p DLI \<longrightarrow>
            attr_state p' \<noteq> STATE_UNKNOWN
          \<and> (\<exists>v. reading h p DLI = Inr v
               \<and> (\<not> float_gt v (Finite 0) \<longrightarrow> status_of DLI p' = Some STATE_OK)
               \<and> (float_gt v (Finite 0) \<longrightarrow>
                    (\<exists>mn. float_state h (min_of DLI p) = Inr mn
                       \<and> (float_lt v mn \<longrightarrow> status_of DLI p' = Some STATE_LOW)
                       \<and> (\<not> float_lt v mn \<longrightarrow>
                            (\<exists>mx. float_state h (max_of DLI p) = Inr mx
                               \<and> (float_gt v mx \<longrightarrow> status_of DLI p' = Some STATE_HIGH)
                               \<and> (\<not> float_gt v mx \<longrightarrow> status_of DLI p' = Some STATE_OK)))))))"
proof (intro conjI impI)
  assume n: "\<not> known_reading h p DLI"
  show "status_of DLI p' = status_of DLI p" by (rule update_unknown_status [OF assms n])
  show "attr_state p' = STATE_UNKNOWN \<longleftrightarrow> (\<forall>m. m \<noteq> DLI \<longrightarrow> \<not> known_reading h p m)"
    unfolding update_unknown_iff [OF assms]
  proof
    assume "\<forall>m. \<not> known_reading h p m"
    then show "\<forall>m. m \<noteq> DLI \<longrightarrow> \<not> known_reading h p m" by simp
  next
    assume a: "\<forall>m. m \<noteq> DLI \<longrightarrow> \<not> known_reading h p m"
    show "\<forall>m. \<not> known_reading h p m"
    proof
      fix m show "\<not> known_reading h p m" using a n by (cases "m = DLI") simp_all
    qed
  qed
next
  assume k: "known_reading h p DLI"
  then show "attr_state p' \<noteq> STATE_UNKNOWN"
    unfolding update_unknown_iff [OF assms] by auto
  from update_known_reading [OF assms k] obtain v where v: "reading h p DLI = Inr v" ..
  from update_classified [OF assms k v] obtain s
    where s: "classify h p DLI v = Inr s" "status_of DLI p' = Some s" by auto
  show "\<exists>v. reading h p DLI = Inr v
      \<and> (\<not> float_gt v (Finite 0) \<longrightarrow> status_of DLI p' = Some STATE_OK)
      \<and> (float_gt v (Finite 0) \<longrightarrow>
           (\<exists>mn. float_state h (min_of DLI p) = Inr mn
              \<and> (float_lt v mn \<longrightarrow> status_of DLI p' = Some STATE_LOW)
              \<and> (\<not> float_lt v mn \<longrightarrow>
                   (\<exists>mx. float_state h (max_of DLI p) = Inr mx
                      \<and> (float_gt v mx \<longrightarrow> status_of DLI p' = Some STATE_HIGH)
                      \<and> (\<not> float_gt v mx \<longrightarrow> status_of DLI p' = Some STATE_OK)))))"
  proof (rule exI [of _ v], intro conjI)
    show "reading h p DLI = Inr v" by (rule v)
    show "\<not> float_gt v (Finite 0) \<longrightarrow> status_of DLI p' = Some STATE_OK"
      using s by (auto simp: classify_def)
    show "float_gt v (Finite 0) \<longrightarrow>
        (\<exists>mn. float_state h (min_of DLI p) = Inr mn
          \<and> (float_lt v mn \<longrightarrow> status_of DLI p' = Some STATE_LOW)
          \<and> (\<not> float_lt v mn \<longrightarrow>
               (\<exists>mx. float_state h (max_of DLI p) = Inr mx
                  \<and> (float_gt v mx \<longrightarrow> status_of DLI p' = Some STATE_HIGH)
                  \<and> (\<not> float_gt v mx \<longrightarrow> status_of DLI p' = Some STATE_OK))))"
    proof
      assume "float_gt v (Finite 0)"
      then have "two_sided h p DLI v = Inr s" using s(1) by (simp add: classify_def)
      from two_sided_Inr [OF this] show
        "\<exists>mn. float_state h (min_of DLI p) = Inr mn
          \<and> (float_lt v mn \<longrightarrow> status_of DLI p' = Some STATE_LOW)
          \<and> (\<not> float_lt v mn \<longrightarrow>
               (\<exists>mx. float_state h (max_of DLI p) = Inr mx
                  \<and> (float_gt v mx \<longrightarrow> status_of DLI p' = Some STATE_HIGH)
                  \<and> (\<not> float_gt v mx \<longrightarrow> status_of DLI p' = Some STATE_OK)))"
        unfolding s(2) by simp
    qed
  qed
qed

theorem dli_classification_witness:
  "update hass_none plant_L = Inr (plant_after (update hass_none plant_L))
   \<and> known_reading hass_none plant_L DLI
   \<and> reading hass_none plant_L DLI = Inr (Finite 1)
   \<and> float_gt (Finite 1) (Finite 0)
   \<and> float_state hass_none (min_of DLI plant_L) = Inr (Finite 2)
   \<and> float_lt (Finite 1) (Finite 2)
   \<and> status_of DLI (plant_after (update hass_none plant_L)) = Some STATE_LOW
   \<and> attr_state (plant_after (update hass_none plant_L)) \<noteq> STATE_UNKNOWN"
proof -
  have u: "update hass_none plant_L = Inr (plant_after (update hass_none plant_L))"
    by (simp add: scenario_defs demo_defs eval_defs const_defs)
  have k: "known_reading hass_none plant_L DLI"
    by (simp add: scenario_defs demo_defs eval_defs const_defs)
  have r: "reading hass_none plant_L DLI = Inr (Finite 1)"
    by (simp add: scenario_defs demo_defs eval_defs const_defs)
  have mn: "float_state hass_none (min_of DLI plant_L) = Inr (Finite 2)"
    by (simp add: scenario_defs demo_defs eval_defs const_defs)
  have c: "float_gt (Finite 1) (Finite 0)" "float_lt (Finite 1) (Finite 2)"
    by (simp_all add: float_gt_def)
  from dli_classification [OF u] k r mn c
  have "status_of DLI (plant_after (update hass_none plant_L)) = Some STATE_LOW
      \<and> attr_state (plant_after (update hass_none plant_L)) \<noteq> STATE_UNKNOWN"
    by auto
  with u k r mn c show ?thesis by simp
qed

theorem dli_classification_counterexample:
  "update hass_none plant_E = Inr (plant_after (update hass_none plant_E))
   \<and> reading hass_none plant_E DLI = Inr (Finite 0)
   \<and> \<not> float_gt (Finite 0) (Finite 0)
   \<and> \<not> known_reading hass_none plant_E Moisture
   \<and> \<not> known_reading hass_none plant_E Conductivity
   \<and> \<not> known_reading hass_none plant_E Temperature
   \<and> \<not> known_reading hass_none plant_E Humidity
   \<and> \<not> known_reading hass_none plant_E Illuminance
   \<and> dli_status (plant_after (update hass_none plant_E)) = Some STATE_OK
   \<and> attr_state (plant_after (update hass_none plant_E)) = STATE_OK
   \<and> STATE_OK \<noteq> STATE_UNKNOWN"
  by (simp add: scenario_defs demo_defs eval_defs const_defs)

text \<open>
  Claim C3, as amended. For a general metric (moisture, temperature, conductivity,
  humidity) with a known reading \<open>v\<close> and numeric thresholds, a pass that returns sets the
  status to \<open>low\<close> if \<open>v < min\<close>, to \<open>high\<close> if \<open>v > max\<close> and not \<open>v < min\<close>, and to
  \<open>ok\<close> if \<open>min \<le> v \<le> max\<close>. The test against the minimum comes first: in the
  counterexample the bounds are the wrong way round (minimum 60, maximum 20) and a
  moisture of 40, which exceeds the maximum, is classified \<open>low\<close>.
\<close>

theorem general_metric_classification:
  assumes "update h p = Inr p'" and "m \<in> general_metrics" and "known_reading h p m"
    and "reading h p m = Inr v"
    and "float_state h (min_of m p) = Inr mn" and "float_state h (max_of m p) = Inr mx"
  shows "(float_lt v mn \<longrightarrow> status_of m p' = Some STATE_LOW)
       \<and> (float_gt v mx \<and> \<not> float_lt v mn \<longrightarrow> status_of m p' = Some STATE_HIGH)
       \<and> (float_le mn v \<and> float_le v mx \<longrightarrow> status_of m p' = Some STATE_OK)"
  using update_general [OF assms] float_le_not_lt [of mn v] float_le_not_lt [of v mx]
  by (auto simp: float_gt_def)

theorem general_metric_classification_witness:
  "update hass_A plant_A = Inr (plant_after (update hass_A plant_A))
   \<and> Moisture \<in> general_metrics
   \<and> known_reading hass_A plant_A Moisture
   \<and> reading hass_A plant_A Moisture = Inr (Finite 15)
   \<and> float_state hass_A (min_of Moisture plant_A) = Inr (Finite 20)
   \<and> float_state hass_A (max_of Moisture plant_A) = Inr (Finite 60)
   \<and> float_lt (Finite 15) (Finite 20)
   \<and> status_of Moisture (plant_after (update hass_A plant_A)) = Some STATE_LOW"
proof -
  have u: "update hass_A plant_A = Inr (plant_after (update hass_A plant_A))"
    by (simp add: scenario_defs demo_defs eval_defs const_defs)
  have g: "Moisture \<in> general_metrics" by (simp add: general_metrics_def)
  have k: "known_reading hass_A plant_A Moisture"
    by (simp add: scenario_defs demo_defs eval_defs const_defs)
  have r: "reading hass_A plant_A Moisture = Inr (Finite 15)"
    by (simp add: scenario_defs demo_defs eval_defs const_defs)
  have mn: "float_state hass_A (min_of Moisture plant_A) = Inr (Finite 20)"
    by (simp add: scenario_defs demo_defs eval_defs const_defs)
  have mx: "float_state hass_A (max_of Moisture plant_A) = Inr (Finite 60)"
    by (simp add: scenario_defs demo_defs eval_defs const_defs)
  from general_metric_classification [OF u g k r mn mx] u g k r mn mx show ?thesis by simp
qed

theorem general_metric_classification_counterexample:
  "update hass_I plant_I = Inr (plant_after (update hass_I plant_I))
   \<and> Moisture \<in> general_metrics
   \<and> known_reading hass_I plant_I Moisture
   \<and> reading hass_I plant_I Moisture = Inr (Finite 40)
   \<and> float_state hass_I (min_of Moisture plant_I) = Inr (Finite 60)
   \<and> float_state hass_I (max_of Moisture plant_I) = Inr (Finite 20)
   \<and> float_gt (Finite 40) (Finite 20)
   \<and> status_of Moisture (plant_after (update hass_I plant_I)) = Some STATE_LOW
   \<and> STATE_LOW \<noteq> STATE_HIGH"
  by (simp add: scenario_defs demo_defs eval_defs const_defs general_metrics_def)

text \<open>
  Claim C4. For a known illuminance reading \<open>v\<close> and a numeric maximum, a pass that
  returns sets the illuminance status to \<open>high\<close> if \<open>v > max\<close> and to \<open>ok\<close> if
  \<open>v \<le> max\<close>. No pass, returning or raising, makes the illuminance status \<open>low\<close>
  unless it already was, and on a device built by the constructor no sequence of
  operations ever does.
\<close>

theorem illuminance_classification:
  "(update h p = Inr p' \<and> known_reading h p Illuminance
      \<and> reading h p Illuminance = Inr v \<and> float_state h (max_of Illuminance p) = Inr mx
      \<longrightarrow> (float_gt v mx \<longrightarrow> status_of Illuminance p' = Some STATE_HIGH)
        \<and> (float_le v mx \<longrightarrow> status_of Illuminance p' = Some STATE_OK))
   \<and> (status_of Illuminance (plant_after (update h p)) = Some STATE_LOW
      \<longrightarrow> status_of Illuminance p = Some STATE_LOW)
   \<and> (PlantDevice_init cfg = Inr p0
      \<longrightarrow> status_of Illuminance (exec_ops xs p0) \<noteq> Some STATE_LOW)"
proof (intro conjI impI)
  assume a: "update h p = Inr p' \<and> known_reading h p Illuminance
      \<and> reading h p Illuminance = Inr v \<and> float_state h (max_of Illuminance p) = Inr mx"
  then have s: "status_of Illuminance p' = Some (if float_gt v mx then STATE_HIGH else STATE_OK)"
    using update_illuminance [of h p p' v mx] by simp
  {
    assume "float_gt v mx"
    then show "status_of Illuminance p' = Some STATE_HIGH" using s by simp
  }
  {
    assume "float_le v mx"
    then have "\<not> float_gt v mx" unfolding float_gt_def by (rule float_le_not_lt)
    then show "status_of Illuminance p' = Some STATE_OK" using s by simp
  }
next
  assume "status_of Illuminance (plant_after (update h p)) = Some STATE_LOW"
  then show "status_of Illuminance p = Some STATE_LOW"
    using exec_op_illuminance [of p h Update] by auto
next
  assume "PlantDevice_init cfg = Inr p0"
  then have "status_of Illuminance p0 = None" by (rule init_fresh)
  then show "status_of Illuminance (exec_ops xs p0) \<noteq> Some STATE_LOW"
    by (intro exec_ops_illuminance) simp
qed

theorem illuminance_classification_witness:
  "update hass_D plant_A = Inr (plant_after (update hass_D plant_A))
   \<and> known_reading hass_D plant_A Illuminance
   \<and> reading hass_D plant_A Illuminance = Inr (Finite 50000)
   \<and> float_state hass_D (max_of Illuminance plant_A) = Inr (Finite 40000)
   \<and> float_gt (Finite 50000) (Finite 40000)
   \<and> status_of Illuminance (plant_after (update hass_D plant_A)) = Some STATE_HIGH
   \<and> PlantDevice_init (demo_config Map.empty)
        = Inr (projr (PlantDevice_init (demo_config Map.empty)))
   \<and> status_of Illuminance plant_A \<noteq> Some STATE_LOW"
proof -
  have u: "update hass_D plant_A = Inr (plant_after (update hass_D plant_A))"
    by (simp add: scenario_defs demo_defs eval_defs const_defs)
  have k: "known_reading hass_D plant_A Illuminance"
    by (simp add: scenario_defs demo_defs eval_defs const_defs)
  have r: "reading hass_D plant_A Illuminance = Inr (Finite 50000)"
    by (simp add: scenario_defs demo_defs eval_defs const_defs)
  have mx: "float_state hass_D (max_of Illuminance plant_A) = Inr (Finite 40000)"
    by (simp add: scenario_defs demo_defs eval_defs const_defs)
  have c: "float_gt (Finite 50000) (Finite 40000)" by (simp add: float_gt_def)
  have i: "PlantDevice_init (demo_config Map.empty)
      = Inr (projr (PlantDevice_init (demo_config Map.empty)))"
    by (simp add: demo_defs const_defs)
  from illuminance_classification
    [of hass_D plant_A "plant_after (update hass_D plant_A)" "Finite 50000" "Finite 40000"
      "demo_config Map.empty" "projr (PlantDevice_init (demo_config Map.empty))"
      "demo_setup demo_thresholds None"]
    u k r mx c i
  show ?thesis by (simp add: plant_A_def demo_plant_def)
qed

text \<open>
  Claim C5. If the reading of a metric is absent, \<open>unknown\<close> or \<open>unavailable\<close> when
  \<^verbatim>\<open>update\<close> is called, then the call, whether it returns or raises, leaves the status of
  that metric as it was; the block of the metric changes nothing, \<open>known_state\<close>
  included; and the aggregate state of a pass that returns is \<open>unknown\<close> exactly when
  none of the other metrics has a known reading.
\<close>

theorem absent_reading_frame:
  assumes "\<not> known_reading h p m"
  shows "status_of m (plant_after (update h p)) = status_of m p
       \<and> (\<forall>f. self f = p \<longrightarrow> block m h f = Inr f)
       \<and> (\<forall>p'. update h p = Inr p' \<longrightarrow>
            (attr_state p' = STATE_UNKNOWN \<longleftrightarrow> (\<forall>m'. m' \<noteq> m \<longrightarrow> \<not> known_reading h p m')))"
proof (intro conjI allI impI)
  have v: "verdict h p m = Inr None" using assms by (simp add: verdict_unknown)
  then show "status_of m (plant_after (update h p)) = status_of m p"
    using update_after_status [of m h p] by auto
  show "block m h f = Inr f" if "self f = p" for f
    using v that by (simp add: block_verdict)
  show "attr_state p' = STATE_UNKNOWN \<longleftrightarrow> (\<forall>m'. m' \<noteq> m \<longrightarrow> \<not> known_reading h p m')"
    if u: "update h p = Inr p'" for p'
    unfolding update_unknown_iff [OF u]
  proof
    assume "\<forall>m. \<not> known_reading h p m"
    then show "\<forall>m'. m' \<noteq> m \<longrightarrow> \<not> known_reading h p m'" by simp
  next
    assume a: "\<forall>m'. m' \<noteq> m \<longrightarrow> \<not> known_reading h p m'"
    show "\<forall>m. \<not> known_reading h p m"
    proof
      fix m' show "\<not> known_reading h p m'" using a assms by (cases "m' = m") simp_all
    qed
  qed
qed

theorem absent_reading_frame_witness:
  "\<not> known_reading hass_A plant_A Temperature
   \<and> status_of Temperature (plant_after (update hass_A plant_A)) = status_of Temperature plant_A
   \<and> block Temperature hass_A (frame0 plant_A) = Inr (frame0 plant_A)
   \<and> update hass_A plant_A = Inr (plant_after (update hass_A plant_A))
   \<and> known_reading hass_A plant_A Moisture
   \<and> attr_state (plant_after (update hass_A plant_A)) \<noteq> STATE_UNKNOWN"
proof -
  have n: "\<not> known_reading hass_A plant_A Temperature"
    by (simp add: scenario_defs demo_defs eval_defs const_defs)
  have u: "update hass_A plant_A = Inr (plant_after (update hass_A plant_A))"
    by (simp add: scenario_defs demo_defs eval_defs const_defs)
  have k: "known_reading hass_A plant_A Moisture"
    by (simp add: scenario_defs demo_defs eval_defs const_defs)
  note t = absent_reading_frame [OF n]
  have 1: "status_of Temperature (plant_after (update hass_A plant_A))
      = status_of Temperature plant_A"
    using t by simp
  have 2: "block Temperature hass_A (frame0 plant_A) = Inr (frame0 plant_A)"
    using t by simp
  have 3: "attr_state (plant_after (update hass_A plant_A)) \<noteq> STATE_UNKNOWN"
  proof
    assume "attr_state (plant_after (update hass_A plant_A)) = STATE_UNKNOWN"
    with t u have "\<forall>m'. m' \<noteq> Temperature \<longrightarrow> \<not> known_reading hass_A plant_A m'" by blast
    with k show False by auto
  qed
  from n 1 2 u k 3 show ?thesis by simp
qed

text \<open>
  Claim C6. If a metric has a known reading and its trigger is disabled, a pass that
  returns still records \<open>low\<close> or \<open>high\<close> for it when the reading is out of bounds, and
  the aggregate state is \<open>problem\<close> only if some other metric, with its trigger enabled,
  was classified \<open>low\<close> or \<open>high\<close> in the pass. The witness is scenario B: moisture 15
  against 20 and 60 with the trigger off and nothing else known gives the moisture status
  \<open>low\<close> and the aggregate state \<open>ok\<close>.
\<close>

theorem disabled_trigger_breach:
  assumes "update h p = Inr p'" and "known_reading h p m" and "\<not> trigger_of m p"
  shows "(\<forall>v mn mx. reading h p m = Inr v \<and> float_state h (min_of m p) = Inr mn
            \<and> float_state h (max_of m p) = Inr mx \<and> breaches m v mn mx
            \<longrightarrow> status_of m p' \<in> {Some STATE_LOW, Some STATE_HIGH})
       \<and> (attr_state p' = STATE_PROBLEM \<longrightarrow>
            (\<exists>m'. m' \<noteq> m \<and> known_reading h p m' \<and> trigger_of m' p
               \<and> status_of m' p' \<in> {Some STATE_LOW, Some STATE_HIGH}))"
proof (intro conjI allI impI)
  fix v mn mx
  assume a: "reading h p m = Inr v \<and> float_state h (min_of m p) = Inr mn
      \<and> float_state h (max_of m p) = Inr mx \<and> breaches m v mn mx"
  from update_classified [OF assms(1,2), of v] a obtain s
    where s: "classify h p m v = Inr s" "status_of m p' = Some s" by auto
  from classify_breaches [of m v mn mx h p s] a s(1) have "s = STATE_LOW \<or> s = STATE_HIGH"
    by simp
  then show "status_of m p' \<in> {Some STATE_LOW, Some STATE_HIGH}" using s(2) by auto
next
  assume "attr_state p' = STATE_PROBLEM"
  from update_problem [OF assms(1) this] obtain m' where "breach h p m'" ..
  then have b: "known_reading h p m' \<and> trigger_of m' p
      \<and> status_of m' p' \<in> {Some STATE_LOW, Some STATE_HIGH}"
    by (simp add: breach_iff [OF assms(1)])
  then have "m' \<noteq> m" using assms(3) by auto
  with b show "\<exists>m'. m' \<noteq> m \<and> known_reading h p m' \<and> trigger_of m' p
      \<and> status_of m' p' \<in> {Some STATE_LOW, Some STATE_HIGH}"
    by auto
qed

theorem disabled_trigger_breach_witness:
  "update hass_A plant_B = Inr (plant_after (update hass_A plant_B))
   \<and> known_reading hass_A plant_B Moisture
   \<and> \<not> trigger_of Moisture plant_B
   \<and> reading hass_A plant_B Moisture = Inr (Finite 15)
   \<and> float_state hass_A (min_of Moisture plant_B) = Inr (Finite 20)
   \<and> float_state hass_A (max_of Moisture plant_B) = Inr (Finite 60)
   \<and> breaches Moisture (Finite 15) (Finite 20) (Finite 60)
   \<and> status_of Moisture (plant_after (update hass_A plant_B)) \<in> {Some STATE_LOW, Some STATE_HIGH}
   \<and> attr_state (plant_after (update hass_A plant_B)) \<noteq> STATE_PROBLEM
   \<and> moisture_status (plant_after (update hass_A plant_B)) = Some STATE_LOW
   \<and> attr_state (plant_after (update hass_A plant_B)) = STATE_OK"
proof -
  have u: "update hass_A plant_B = Inr (plant_after (update hass_A plant_B))"
    by (simp add: scenario_defs demo_defs eval_defs const_defs)
  have k: "known_reading hass_A plant_B Moisture"
    by (simp add: scenario_defs demo_defs eval_defs const_defs)
  have t: "\<not> trigger_of Moisture plant_B"
    by (simp add: scenario_defs demo_defs eval_defs const_defs)
  have r: "reading hass_A plant_B Moisture = Inr (Finite 15)"
    by (simp add: scenario_defs demo_defs eval_defs const_defs)
  have mn: "float_state hass_A (min_of Moisture plant_B) = Inr (Finite 20)"
    by (simp add: scenario_defs demo_defs eval_defs const_defs)
  have mx: "float_state hass_A (max_of Moisture plant_B) = Inr (Finite 60)"
    by (simp add: scenario_defs demo_defs eval_defs const_defs)
  have b: "breaches Moisture (Finite 15) (Finite 20) (Finite 60)"
    by (simp add: breaches_def)
  have others: "\<not> known_reading hass_A plant_B m'" if "m' \<noteq> Moisture" for m'
    using that
    by (cases m') (simp_all add: scenario_defs demo_defs eval_defs const_defs)
  note d = disabled_trigger_breach [OF u k t]
  have 1: "status_of Moisture (plant_after (update hass_A plant_B))
      \<in> {Some STATE_LOW, Some STATE_HIGH}"
    using d r mn mx b by blast
  have 2: "attr_state (plant_after (update hass_A plant_B)) \<noteq> STATE_PROBLEM"
    using d others by blast
  have 3: "moisture_status (plant_after (update hass_A plant_B)) = Some STATE_LOW
      \<and> attr_state (plant_after (update hass_A plant_B)) = STATE_OK"
    by (simp add: scenario_defs demo_defs eval_defs const_defs)
  from u k t r mn mx b 1 2 3 show ?thesis by simp
qed

text \<open>
  Claim C7, as amended. While the device is not complete, the attributes and the
  websocket information are empty. A new device is not complete, and after any sequence
  of operations a device is complete exactly when it was complete before or the sequence
  contains a call of \<^verbatim>\<open>add_dli\<close>: completeness is never lost, and \<^verbatim>\<open>add_dli\<close>
  alone grants it, whether or not the thresholds have been attached. The counterexample
  is a new device on which only \<^verbatim>\<open>add_dli\<close> was called: it has no threshold, it is
  complete, its attributes are not empty and its websocket information raises
  \<^verbatim>\<open>AttributeError\<close>.
\<close>

theorem completeness_gate:
  "(\<not> plant_complete p \<longrightarrow>
      plant_extra_state_attributes p = [] \<and> websocket_info h p = Inr [])
   \<and> (PlantDevice_init cfg = Inr p0 \<longrightarrow> \<not> plant_complete p0)
   \<and> (plant_complete (exec_ops xs p) \<longleftrightarrow>
        plant_complete p \<or> (\<exists>x\<in>set xs. is_add_dli (snd x)))"
proof (intro conjI impI)
  assume "\<not> plant_complete p"
  then show "plant_extra_state_attributes p = []" "websocket_info h p = Inr []"
    by (simp_all add: plant_extra_state_attributes_def websocket_info_def)
next
  assume "PlantDevice_init cfg = Inr p0"
  then show "\<not> plant_complete p0" by (rule init_fresh)
next
  show "plant_complete (exec_ops xs p) \<longleftrightarrow>
      plant_complete p \<or> (\<exists>x\<in>set xs. is_add_dli (snd x))"
    by (rule exec_ops_complete)
qed

theorem completeness_gate_witness:
  "PlantDevice_init (demo_config Map.empty) = Inr plant_new
   \<and> \<not> plant_complete plant_new
   \<and> plant_extra_state_attributes plant_new = []
   \<and> websocket_info hass_none plant_new = Inr []
   \<and> (hass_none, Add_dli None) \<in> set (demo_setup demo_thresholds None)
   \<and> is_add_dli (snd (hass_none, Add_dli None))
   \<and> plant_complete (exec_ops (demo_setup demo_thresholds None) plant_new)"
proof -
  have i: "PlantDevice_init (demo_config Map.empty) = Inr plant_new"
    by (simp add: demo_defs const_defs)
  have m: "(hass_none, Add_dli None) \<in> set (demo_setup demo_thresholds None)"
    by (simp add: scenario_defs demo_defs)
  have a: "is_add_dli (snd (hass_none, Add_dli None))" by (simp add: is_add_dli_def)
  note g = completeness_gate
    [of plant_new hass_none "demo_config Map.empty" plant_new "demo_setup demo_thresholds None"]
  have 1: "\<not> plant_complete plant_new" using g i by simp
  have 2: "plant_extra_state_attributes plant_new = []
      \<and> websocket_info hass_none plant_new = Inr []"
    using g 1 by simp
  have 3: "plant_complete (exec_ops (demo_setup demo_thresholds None) plant_new)"
    using g m a by blast
  from i 1 2 m a 3 show ?thesis by simp
qed

theorem completeness_gate_counterexample:
  "PlantDevice_init (demo_config Map.empty) = Inr plant_new
   \<and> plant_dli_only = add_dli (Some (demo_dli ''1'' ''1'')) plant_new
   \<and> min_moisture plant_dli_only = None \<and> max_moisture plant_dli_only = None
   \<and> min_dli plant_dli_only = None \<and> max_dli plant_dli_only = None
   \<and> plant_complete plant_dli_only
   \<and> plant_extra_state_attributes plant_dli_only \<noteq> []
   \<and> websocket_info hass_none plant_dli_only = Inl AttributeError"
  by (simp add: scenario_defs demo_defs const_defs
      plant_extra_state_attributes_def websocket_info_def meter_info_def attr_def bind_err_def)

text \<open>
  Claim C8, as amended. If a metric has a known reading that \<^verbatim>\<open>float\<close> rejects, then
  \<^verbatim>\<open>update\<close> raises; the aggregate state is left as it was, and so is the status of that
  metric and of every metric that comes after it in the pass; and when no metric before
  it raises, the exception is the \<^verbatim>\<open>ValueError\<close> of that reading. The statuses of the
  metrics before it are not protected: in the counterexample the conductivity reading is
  \<^verbatim>\<open>"abc"\<close>, the pass raises \<^verbatim>\<open>ValueError\<close>, and the moisture status has already
  changed from unset to \<open>low\<close>, which the attributes of the device show.
\<close>

theorem malformed_reading_raises:
  assumes "known_reading h p m" and "reading h p m = Inl ValueError"
  shows "\<exists>e p'. update h p = Inl (e, p')
       \<and> attr_state p' = attr_state p
       \<and> (\<forall>m'. m' \<notin> set (takeWhile (\<lambda>x. x \<noteq> m) eval_order)
             \<longrightarrow> status_of m' p' = status_of m' p)
       \<and> ((\<forall>m'\<in>set (takeWhile (\<lambda>x. x \<noteq> m) eval_order). \<exists>r. verdict h p m' = Inr r)
             \<longrightarrow> e = ValueError)"
proof -
  have v: "verdict h p m = Inl ValueError" by (rule verdict_reading_Inl [OF assms])
  from update_raises [OF v] obtain e p' where u: "update h p = Inl (e, p')" by auto
  then have s: "seq_blocks h eval_order (frame0 p) = Inl (e, p')" by (simp add: update_Inl_iff)
  have 1: "attr_state p' = attr_state p" by (rule update_Inl_attr_state [OF u])
  have 2: "status_of m' p' = status_of m' p"
    if "m' \<notin> set (takeWhile (\<lambda>x. x \<noteq> m) eval_order)" for m'
    using seq_blocks_Inl_untouched [OF s _ that, of ValueError] v by simp
  have 3: "e = ValueError"
    if "\<forall>m'\<in>set (takeWhile (\<lambda>x. x \<noteq> m) eval_order). \<exists>r. verdict h p m' = Inr r"
    using seq_blocks_first_error [OF s, of m ValueError] v that by simp
  from u 1 2 3 show ?thesis by blast
qed

theorem malformed_reading_raises_witness:
  "known_reading hass_M plant_A Conductivity
   \<and> reading hass_M plant_A Conductivity = Inl ValueError
   \<and> set (takeWhile (\<lambda>x. x \<noteq> Conductivity) eval_order) = {Moisture}
   \<and> verdict hass_M plant_A Moisture = Inr (Some STATE_LOW)
   \<and> update hass_M plant_A = Inl (ValueError, plant_after (update hass_M plant_A))
   \<and> attr_state (plant_after (update hass_M plant_A)) = attr_state plant_A
   \<and> status_of Conductivity (plant_after (update hass_M plant_A))
       = status_of Conductivity plant_A"
proof -
  have k: "known_reading hass_M plant_A Conductivity"
    by (simp add: scenario_defs demo_defs eval_defs const_defs)
  have r: "reading hass_M plant_A Conductivity = Inl ValueError"
    by (simp add: scenario_defs demo_defs eval_defs const_defs)
  have n: "set (takeWhile (\<lambda>x. x \<noteq> Conductivity) eval_order) = {Moisture}"
    by (simp add: eval_order_def)
  have v: "verdict hass_M plant_A Moisture = Inr (Some STATE_LOW)"
    by (simp add: verdict_def classify_def two_sided_def scenario_defs demo_defs eval_defs
        const_defs)
  from malformed_reading_raises [OF k r] obtain e p'
    where u: "update hass_M plant_A = Inl (e, p')"
      and a: "attr_state p' = attr_state plant_A"
      and s: "\<forall>m'. m' \<notin> set (takeWhile (\<lambda>x. x \<noteq> Conductivity) eval_order)
             \<longrightarrow> status_of m' p' = status_of m' plant_A"
      and f: "(\<forall>m'\<in>set (takeWhile (\<lambda>x. x \<noteq> Conductivity) eval_order).
                \<exists>r. verdict hass_M plant_A m' = Inr r) \<longrightarrow> e = ValueError"
    by blast
  have "Conductivity \<notin> set (takeWhile (\<lambda>x. x \<noteq> Conductivity) eval_order)"
    unfolding n by simp
  with s have c: "status_of Conductivity p' = status_of Conductivity plant_A" by blast
  from f n v have e: "e = ValueError" by simp
  from k r n v u a c e show ?thesis by (simp add: plant_after_def)
qed

theorem malformed_reading_raises_counterexample:
  "known_reading hass_M plant_A Conductivity
   \<and> reading hass_M plant_A Conductivity = Inl ValueError
   \<and> update hass_M plant_A = Inl (ValueError, plant_after (update hass_M plant_A))
   \<and> moisture_status plant_A = None
   \<and> moisture_status (plant_after (update hass_M plant_A)) = Some STATE_LOW
   \<and> plant_extra_state_attributes (plant_after (update hass_M plant_A))
       \<noteq> plant_extra_state_attributes plant_A"
  by (simp add: scenario_defs demo_defs eval_defs const_defs
      plant_extra_state_attributes_def status_val_def)

text \<open>
  Claim C9. \<^verbatim>\<open>update\<close> is idempotent: called again on the device the first call left
  behind, with the same host state, it has the same outcome (the same exception, or a
  normal return) and leaves the same device, so the same statuses and the same aggregate
  state.
\<close>

theorem update_idempotent: "update h (plant_after (update h p)) = update h p"
  by (rule update_again)

text \<open>
  Claim C10. A status that is set is never unset again by any sequence of operations of
  the device, whatever the host state at each of them; on a device built by the
  constructor every status is unset or one of \<open>ok\<close>, \<open>low\<close>, \<open>high\<close> at all times; and
  every pass that returns leaves the aggregate state at one of \<open>ok\<close>, \<open>problem\<close>,
  \<open>unknown\<close>.
\<close>

theorem status_sticky:
  "(status_of m p \<noteq> None \<longrightarrow> status_of m (exec_ops xs p) \<noteq> None)
   \<and> (PlantDevice_init cfg = Inr p0 \<longrightarrow>
        status_of m (exec_ops xs p0) \<in> {None, Some STATE_OK, Some STATE_LOW, Some STATE_HIGH})
   \<and> (update h q = Inr q' \<longrightarrow> attr_state q' \<in> {STATE_OK, STATE_PROBLEM, STATE_UNKNOWN})"
proof (intro conjI impI)
  assume "status_of m p \<noteq> None"
  then show "status_of m (exec_ops xs p) \<noteq> None" by (rule exec_ops_sticky)
next
  assume "PlantDevice_init cfg = Inr p0"
  then have "status_of m p0 = None" by (rule init_fresh)
  then have "status_of m p0 \<in> status_values" by (simp add: status_values_def)
  then have "status_of m (exec_ops xs p0) \<in> status_values" by (rule exec_ops_values)
  then show "status_of m (exec_ops xs p0)
      \<in> {None, Some STATE_OK, Some STATE_LOW, Some STATE_HIGH}"
    by (simp add: status_values_def)
next
  assume "update h q = Inr q'"
  then show "attr_state q' \<in> {STATE_OK, STATE_PROBLEM, STATE_UNKNOWN}"
    by (simp add: update_aggregate)
qed

theorem status_sticky_witness:
  "status_of Moisture plant_second \<noteq> None
   \<and> status_of Moisture (exec_ops later_ops plant_second) \<noteq> None
   \<and> PlantDevice_init (demo_config Map.empty) = Inr plant_new
   \<and> status_of Moisture (exec_ops (demo_setup demo_thresholds None) plant_new)
       \<in> {None, Some STATE_OK, Some STATE_LOW, Some STATE_HIGH}
   \<and> update hass_A plant_A = Inr (plant_after (update hass_A plant_A))
   \<and> attr_state (plant_after (update hass_A plant_A))
       \<in> {STATE_OK, STATE_PROBLEM, STATE_UNKNOWN}"
proof -
  have s: "status_of Moisture plant_second \<noteq> None"
    by (simp add: scenario_defs demo_defs eval_defs const_defs)
  have i: "PlantDevice_init (demo_config Map.empty) = Inr plant_new"
    by (simp add: demo_defs const_defs)
  have u: "update hass_A plant_A = Inr (plant_after (update hass_A plant_A))"
    by (simp add: scenario_defs demo_defs eval_defs const_defs)
  note t = status_sticky [of Moisture plant_second later_ops "demo_config Map.empty" plant_new
      hass_A plant_A "plant_after (update hass_A plant_A)"]
  note t' = status_sticky [of Moisture plant_new "demo_setup demo_thresholds None"
      "demo_config Map.empty" plant_new hass_A plant_A "plant_after (update hass_A plant_A)"]
  have 1: "status_of Moisture (exec_ops later_ops plant_second) \<noteq> None" using t s by blast
  have 2: "status_of Moisture (exec_ops (demo_setup demo_thresholds None) plant_new)
      \<in> {None, Some STATE_OK, Some STATE_LOW, Some STATE_HIGH}"
    using t' i by blast
  have 3: "attr_state (plant_after (update hass_A plant_A))
      \<in> {STATE_OK, STATE_PROBLEM, STATE_UNKNOWN}"
    using t u by blast
  from s 1 i 2 u 3 show ?thesis by simp
qed

end
